theory Spec2Isabelle
  imports Complex_Main
begin

section \<open>Python values, errors and slices\<close>

text \<open>
  The model follows \<^verbatim>\<open>src/model/IncrementalLearner.py\<close>. Tensors are lists of
  reals (a vector) and lists of rows (a matrix): rounding and NaN of floating point
  are outside the model. Every exception of the source is a value \<open>Inl e\<close>.
\<close>

datatype error =
    ZeroDivisionError
  | KeyError string
  | IndexError
  | RuntimeError
  | ValueError
  | AttributeError
  | TypeError
  | External string

type_synonym vec = "real list"
type_synonym matrix = "real list list"
type_synonym ref = nat

definition bindE :: "error + 'a \<Rightarrow> ('a \<Rightarrow> error + 'b) \<Rightarrow> error + 'b" where
  "bindE m f = (case m of Inl e \<Rightarrow> Inl e | Inr x \<Rightarrow> f x)"

definition key :: "string \<Rightarrow> 'a option \<Rightarrow> error + 'a" where
  \<comment> \<open>\<^verbatim>\<open>d[k]\<close> on a dict: a missing key raises KeyError.\<close>
  "key k v = (case v of None \<Rightarrow> Inl (KeyError k) | Some x \<Rightarrow> Inr x)"

definition py_floordiv :: "int \<Rightarrow> int \<Rightarrow> error + int" where
  \<comment> \<open>\<^verbatim>\<open>a // b\<close> on Python ints: floor division, ZeroDivisionError on 0.\<close>
  "py_floordiv a b = (if b = 0 then Inl ZeroDivisionError else Inr (a div b))"

definition py_index :: "'a list \<Rightarrow> int \<Rightarrow> error + 'a" where
  \<comment> \<open>\<^verbatim>\<open>xs[i]\<close>: position \<open>i\<close>, or \<open>len + i\<close> for a negative \<open>i\<close>; IndexError
      outside.\<close>
  "py_index xs i =
     (if 0 \<le> i \<and> i < int (length xs) then Inr (xs ! nat i)
      else if - int (length xs) \<le> i \<and> i < 0 then Inr (xs ! nat (int (length xs) + i))
      else Inl IndexError)"

definition slice_bound :: "nat \<Rightarrow> int \<Rightarrow> nat" where
  \<comment> \<open>How Python clamps one bound of a slice of a sequence of length \<open>n\<close>.\<close>
  "slice_bound n i = (if i < 0 then nat (int n + i) else min n (nat i))"

definition slice_from :: "int \<Rightarrow> 'a list \<Rightarrow> 'a list" where
  \<comment> \<open>\<^verbatim>\<open>xs[i:]\<close>\<close>
  "slice_from i xs = drop (slice_bound (length xs) i) xs"

definition slice_to :: "int \<Rightarrow> 'a list \<Rightarrow> 'a list" where
  \<comment> \<open>\<^verbatim>\<open>xs[:i]\<close>\<close>
  "slice_to i xs = take (slice_bound (length xs) i) xs"

section \<open>Configuration (params.py)\<close>

text \<open>
  \<^verbatim>\<open>approach_params\<close> is a dict; a field is \<open>None\<close> when the key is absent (the
  dicts of \<^verbatim>\<open>params.py\<close> carry neither \<^verbatim>\<open>use_cosine\<close> nor
  \<^verbatim>\<open>exemplars_selection\<close>). The value of \<^verbatim>\<open>distillation_loss\<close> may itself be
  Python's None. Of \<^verbatim>\<open>train_params\<close>, the keys that the constructor reads for
  the optimizer and the scheduler may be absent too; \<^verbatim>\<open>NUM_EPOCHS\<close> and
  \<^verbatim>\<open>BATCH_SIZE\<close>, which it does not read, are taken present, as
  \<^verbatim>\<open>train_params_base\<close> has them, and the two transform pipelines are part of
  the collaborators.
\<close>

record approach_params =
  classification_loss :: "string option"
  distillation_loss :: "string option option"
  ap_use_cosine :: "bool option"
  ap_use_distillation :: "bool option"
  ap_use_variation :: "bool option"
  ap_use_exemplars :: "bool option"
  n_exemplars :: "int option"
  exemplars_selection :: "string option"

record train_params =
  LR :: "real option"
  MOMENTUM :: "real option"
  WEIGHT_DECAY :: "real option"
  STEP_MILESTONES :: "int list option"
  GAMMA :: "real option"
  NUM_EPOCHS :: int
  BATCH_SIZE :: int

definition approach_params_finetuning :: approach_params where
  "approach_params_finetuning =
     \<lparr>classification_loss = Some ''bce'', distillation_loss = Some None,
      ap_use_cosine = None, ap_use_distillation = Some False, ap_use_variation = Some False,
      ap_use_exemplars = Some False, n_exemplars = Some 0, exemplars_selection = None\<rparr>"

definition approach_params_lwf :: approach_params where
  "approach_params_lwf =
     \<lparr>classification_loss = Some ''bce'', distillation_loss = Some (Some ''icarl''),
      ap_use_cosine = None, ap_use_distillation = Some False, ap_use_variation = Some False,
      ap_use_exemplars = Some False, n_exemplars = Some 0, exemplars_selection = None\<rparr>"

definition approach_params_icarl :: approach_params where
  "approach_params_icarl =
     \<lparr>classification_loss = Some ''bce'', distillation_loss = Some (Some ''icarl''),
      ap_use_cosine = None, ap_use_distillation = Some True, ap_use_variation = Some False,
      ap_use_exemplars = Some True, n_exemplars = Some 2000, exemplars_selection = None\<rparr>"

definition approach_params_variation :: approach_params where
  "approach_params_variation =
     \<lparr>classification_loss = Some ''bce'', distillation_loss = Some (Some ''icarl''),
      ap_use_cosine = None, ap_use_distillation = Some True, ap_use_variation = Some True,
      ap_use_exemplars = Some True, n_exemplars = Some 2000, exemplars_selection = None\<rparr>"

definition train_params_base :: train_params where
  "train_params_base =
     \<lparr>LR = Some 2, MOMENTUM = Some (9 / 10), WEIGHT_DECAY = Some (1 / 100000),
      STEP_MILESTONES = Some [49, 63], GAMMA = Some (2 / 10),
      NUM_EPOCHS = 70, BATCH_SIZE = 128\<rparr>"

definition get_params :: "string \<Rightarrow> train_params \<times> approach_params" where
  "get_params method =
     (if method = ''FINETUNING'' then (train_params_base, approach_params_finetuning)
      else if method = ''LWF'' then (train_params_base, approach_params_lwf)
      else if method = ''ICARL'' then (train_params_base, approach_params_icarl)
      else (train_params_base, approach_params_variation))"

section \<open>The session\<close>

text \<open>
  A head is the layer \<^verbatim>\<open>net.fc\<close>. Its weight is a tensor object: the model keeps
  tensor objects in a store (\<open>heap\<close>) and the head holds the address, because
  \<^verbatim>\<open>torch.nn.init.kaiming_normal_\<close> fills its argument in place and returns it, so
  \<^verbatim>\<open>self.init_weights\<close> is the very tensor of the first head, which the optimizer
  then updates in place. The other parameters of a net (\<open>backbone\<close>, \<open>bias\<close>,
  \<open>sigma\<close>) are aliased by nothing and are kept by value. \<open>sigma\<close> is the learned
  scale of a cosine head; a linear head has none.
\<close>

record head =
  in_features :: nat
  weight :: ref
  bias :: vec
  sigma :: "real option"

record 'b net =
  backbone :: 'b
  fc :: head

record ('b, 'img, 'g) session =
  num_classes :: int
  num_groups :: int
  classes_per_group :: int
  train_params :: train_params
  approach_params :: approach_params
  use_cosine :: bool
  labels_split :: "int list list"
  net :: "'b net"
  init_weights :: ref
  use_distillation :: bool
  use_variation :: bool
  use_exemplars :: bool
  prev_net :: "'b net option"
  ft_net :: "'b net option"
  exemplars :: "('img \<times> int) list list option"
  K :: "int option"
  current_step :: int
  n_known_classes :: int
  heap :: "ref \<Rightarrow> matrix"
  next_ref :: ref
  random_state :: 'g

text \<open>
  What the constructor gets from its collaborators, each of which may raise: the
  splitter, the backbone (\<^verbatim>\<open>resnet32()\<close> or \<^verbatim>\<open>cosine_resnet32()\<close>, by the flag)
  with the width of its features, the optimizer, the scheduler and the loss. It also
  gets the random outcome of building and initialising the first head, and the state of
  the random number generator.
\<close>

record ('b, 'g) collaborators =
  LabelsSplitter :: "int \<Rightarrow> int \<Rightarrow> int \<Rightarrow> error + int list list"
  resnet32 :: "bool \<Rightarrow> error + 'b \<times> nat"
  kaiming_normal :: matrix
  bias0 :: vec
  sigma0 :: real
  SGD :: "real \<Rightarrow> real \<Rightarrow> real \<Rightarrow> error + unit"
  MultiStepLR :: "int list \<Rightarrow> real \<Rightarrow> error + unit"
  CustomizedLoss :: "string \<Rightarrow> string option \<Rightarrow> error + unit"
  seed0 :: 'g

definition new_head :: "int \<Rightarrow> error + unit" where
  \<comment> \<open>\<^verbatim>\<open>nn.Linear(in, out)\<close> and \<^verbatim>\<open>CosineLayer(in, out)\<close> allocate an
      \<open>out \<times> in\<close> tensor: a negative size raises.\<close>
  "new_head out = (if out < 0 then Inl RuntimeError else Inr ())"

definition IncrementalLearner_init ::
  "('b, 'g) collaborators \<Rightarrow> int \<Rightarrow> int \<Rightarrow> int \<Rightarrow> approach_params \<Rightarrow> train_params
     \<Rightarrow> error + ('b, 'img, 'g) session" where
  \<comment> \<open>Lines 20 to 67, in the order in which they can raise.\<close>
  "IncrementalLearner_init c num_classes' num_groups' splitter_seed ap tp =
     bindE (py_floordiv num_classes' num_groups') (\<lambda>cpg.
     bindE (key ''use_cosine'' (ap_use_cosine ap)) (\<lambda>cosine.
     bindE (LabelsSplitter c num_classes' num_groups' splitter_seed) (\<lambda>split.
     bindE (resnet32 c cosine) (\<lambda>body.
     bindE (new_head cpg) (\<lambda>_.
     bindE (key ''LR'' (LR tp)) (\<lambda>lr.
     bindE (key ''MOMENTUM'' (MOMENTUM tp)) (\<lambda>momentum.
     bindE (key ''WEIGHT_DECAY'' (WEIGHT_DECAY tp)) (\<lambda>weight_decay.
     bindE (SGD c lr momentum weight_decay) (\<lambda>_.
     bindE (key ''STEP_MILESTONES'' (STEP_MILESTONES tp)) (\<lambda>milestones.
     bindE (key ''GAMMA'' (GAMMA tp)) (\<lambda>gamma.
     bindE (MultiStepLR c milestones gamma) (\<lambda>_.
     bindE (key ''classification_loss'' (classification_loss ap)) (\<lambda>closs.
     bindE (key ''distillation_loss'' (distillation_loss ap)) (\<lambda>dloss.
     bindE (CustomizedLoss c closs dloss) (\<lambda>_.
     bindE (key ''use_distillation'' (ap_use_distillation ap)) (\<lambda>distillation.
     bindE (if distillation then key ''use_variation'' (ap_use_variation ap) else Inr False)
       (\<lambda>variation.
     bindE (key ''use_exemplars'' (ap_use_exemplars ap)) (\<lambda>use_ex.
     bindE (if distillation \<and> variation then CustomizedLoss c closs None else Inr ()) (\<lambda>_.
     bindE (if use_ex then map_sum id Some (key ''n_exemplars'' (n_exemplars ap)) else Inr None)
       (\<lambda>k.
     Inr \<lparr>num_classes = num_classes', num_groups = num_groups', classes_per_group = cpg,
          train_params = tp, approach_params = ap, use_cosine = cosine,
          labels_split = split,
          net = \<lparr>backbone = fst body,
                 fc = \<lparr>in_features = snd body, weight = 0, bias = bias0 c,
                       sigma = (if cosine then Some (sigma0 c) else None)\<rparr>\<rparr>,
          init_weights = 0,
          use_distillation = distillation, use_variation = variation,
          use_exemplars = use_ex,
          prev_net = None, ft_net = None,
          exemplars = (if use_ex then Some [] else None), K = k,
          current_step = - 1, n_known_classes = 0,
          heap = (\<lambda>_. [])(0 := kaiming_normal c), next_ref = 1,
          random_state = seed0 c\<rparr>))))))))))))))))))))"

text \<open>
  Modelled from the spec: the class \<^verbatim>\<open>LabelsSplitter\<close> of
  \<^verbatim>\<open>project_IL.data_handler\<close>, which the constructor calls and which is not among
  the sources. The specification has it partition the total class set into ordered
  groups of equal size using a seeded permutation, has classes-per-group evenly divide,
  and has a total that the group count does not divide signalled at construction as
  fatal. \<open>permutation seed n\<close> is the seeded permutation of the \<open>n\<close> labels.
\<close>

definition LabelsSplitter_spec ::
  "(int \<Rightarrow> nat \<Rightarrow> int list) \<Rightarrow> int \<Rightarrow> int \<Rightarrow> int \<Rightarrow> error + int list list" where
  \<comment> \<open>Modelled from the spec: \<^verbatim>\<open>LabelsSplitter(num_classes, num_groups, seed)\<close> and
      its \<^verbatim>\<open>labels_split\<close>.\<close>
  "LabelsSplitter_spec permutation n g seed =
     (if \<not> g dvd n then Inl (External ''LabelsSplitter'')
      else Inr (map (\<lambda>i. take (nat (n div g)) (drop (i * nat (n div g)) (permutation seed (nat n))))
                  [0..<nat g]))"

definition step :: "('b, 'img, 'g) session \<Rightarrow> ('b, 'img, 'g) session" where
  "step s = s\<lparr>current_step := current_step s + 1,
              n_known_classes := n_known_classes s + classes_per_group s\<rparr>"

section \<open>Growing the head: update_nets\<close>

definition deepcopy ::
  "'b net \<Rightarrow> ('b, 'img, 'g) session \<Rightarrow> 'b net \<times> ('b, 'img, 'g) session" where
  \<comment> \<open>\<^verbatim>\<open>copy.deepcopy\<close> of a net: a new tensor object with the same values.\<close>
  "deepcopy n s =
     (n\<lparr>fc := (fc n)\<lparr>weight := next_ref s\<rparr>\<rparr>,
      s\<lparr>heap := (heap s)(next_ref s := heap s (weight (fc n))),
        next_ref := Suc (next_ref s)\<rparr>)"

definition replace_fc ::
  "vec \<Rightarrow> real option \<Rightarrow> matrix \<Rightarrow> ('b, 'img, 'g) session \<Rightarrow> ('b, 'img, 'g) session" where
  \<comment> \<open>\<^verbatim>\<open>self.net.fc = <new layer>\<close> followed by \<^verbatim>\<open>self.net.fc.weight.data = w\<close>:
      the new layer has a tensor of its own, and the layer's random weight is
      overwritten.\<close>
  "replace_fc fresh_bias sg w s =
     s\<lparr>net := (net s)\<lparr>fc := \<lparr>in_features = in_features (fc (net s)), weight = next_ref s,
                              bias = fresh_bias, sigma = sg\<rparr>\<rparr>,
       heap := (heap s)(next_ref s := w),
       next_ref := Suc (next_ref s)\<rparr>"

definition save_prev_net :: "('b, 'img, 'g) session \<Rightarrow> ('b, 'img, 'g) session" where
  \<comment> \<open>Lines 79 and 80.\<close>
  "save_prev_net s =
     (if use_distillation s
      then (case deepcopy (net s) s of (n, s') \<Rightarrow> s'\<lparr>prev_net := Some n\<rparr>)
      else s)"

definition grow_head ::
  "vec \<Rightarrow> ('b, 'img, 'g) session \<Rightarrow> error + ('b, 'img, 'g) session" where
  \<comment> \<open>Lines 83 to 91. \<open>fresh_bias\<close> is the random bias the constructor of the new
      layer draws.\<close>
  "grow_head fresh_bias s =
     (let old_weights = heap s (weight (fc (net s)))
      in if \<not> use_cosine s then
           bindE (new_head (n_known_classes s)) (\<lambda>_.
           Inr (replace_fc fresh_bias None (old_weights @ heap s (init_weights s)) s))
         else
           bindE (case sigma (fc (net s)) of None \<Rightarrow> Inl AttributeError
                  | Some sg \<Rightarrow> Inr sg) (\<lambda>prev_sigma.
           bindE (new_head (n_known_classes s)) (\<lambda>_.
           Inr (replace_fc fresh_bias (Some prev_sigma)
                  (old_weights @ heap s (init_weights s)) s))))"

definition prepare_ft_net :: "('b, 'img, 'g) session \<Rightarrow> ('b, 'img, 'g) session" where
  \<comment> \<open>Lines 98 and 99.\<close>
  "prepare_ft_net s =
     (if use_variation s
      then (case deepcopy (net s) s of (n, s') \<Rightarrow> s'\<lparr>ft_net := Some n\<rparr>)
      else s)"

definition update_nets ::
  "vec \<Rightarrow> ('b, 'img, 'g) session \<Rightarrow> error + ('b, 'img, 'g) session" where
  \<comment> \<open>Lines 93 to 95 and 100 to 102 build the optimizer and the scheduler anew from
      the keys that construction has read; they stay black boxes here.\<close>
  "update_nets fresh_bias s =
     (if current_step s > 0
      then bindE (grow_head fresh_bias (save_prev_net s)) (\<lambda>s'. Inr (prepare_ft_net s'))
      else Inr s)"

section \<open>The training loops: train and train_ft\<close>

text \<open>
  The model boundary and the other collaborators. \<open>forward n w images\<close> is what the
  net \<open>n\<close>, whose head weight has the value \<open>w\<close>, returns in mode \<^verbatim>\<open>'all'\<close>: the
  logits and the penultimate features, one row per image; the other two modes return
  one component of it. \<open>optimizer_step\<close> stands for the loss, \<^verbatim>\<open>backward\<close> and
  \<^verbatim>\<open>optimizer.step()\<close>: from the four signals and the class ratio it yields the
  new values of the parameters, written in place. \<open>SubCIFAR\<close> gives the rows of one
  class; \<open>random_sample g n k\<close> is \<^verbatim>\<open>random.sample(range(n), k)\<close> for
  \<open>0 \<le> k \<le> n\<close> in the generator state \<open>g\<close>.
\<close>

record signals =
  class_input :: matrix
  class_target :: matrix
  dist_input :: "matrix option"
  dist_target :: "matrix option"

record 'b parameters =
  p_backbone :: 'b
  p_bias :: vec
  p_sigma :: "real option"
  p_weight :: matrix

record ('b, 'img, 'g) world =
  forward :: "'b net \<Rightarrow> matrix \<Rightarrow> 'img list \<Rightarrow> matrix \<times> matrix"
  transform_labels_onehot :: "int list \<Rightarrow> int \<Rightarrow> matrix"
  optimizer_step :: "signals \<Rightarrow> real \<Rightarrow> 'b parameters \<Rightarrow> 'b parameters"
  SubCIFAR :: "int \<Rightarrow> ('img \<times> int) list"
  random_sample :: "'g \<Rightarrow> nat \<Rightarrow> nat \<Rightarrow> nat list \<times> 'g"

definition call_net ::
  "('b, 'img, 'g) world \<Rightarrow> ('b, 'img, 'g) session \<Rightarrow> 'b net \<Rightarrow> 'img list \<Rightarrow> matrix \<times> matrix" where
  "call_net w s n images = forward w n (heap s (weight (fc n))) images"

definition read_parameters :: "('b, 'img, 'g) session \<Rightarrow> 'b net \<Rightarrow> 'b parameters" where
  "read_parameters s n =
     \<lparr>p_backbone = backbone n, p_bias = bias (fc n), p_sigma = sigma (fc n),
      p_weight = heap s (weight (fc n))\<rparr>"

definition write_parameters :: "'b parameters \<Rightarrow> 'b net \<Rightarrow> 'b net" where
  "write_parameters p n =
     n\<lparr>backbone := p_backbone p, fc := (fc n)\<lparr>bias := p_bias p, sigma := p_sigma p\<rparr>\<rparr>"

definition train_signals ::
  "('b, 'img, 'g) world \<Rightarrow> ('b, 'img, 'g) session \<Rightarrow> 'img list \<Rightarrow> matrix \<Rightarrow> error + signals" where
  \<comment> \<open>Lines 128 to 154: the inputs and targets of the two loss terms for one batch,
      \<open>labels\<close> being the one-hot labels.\<close>
  "train_signals w s images labels =
     (let n_new_classes = classes_per_group s;
          (output, features) = call_net w s (net s) images
      in if use_distillation s \<and> current_step s > 0 then
           bindE
             (if \<not> use_cosine s then
                if use_variation s then
                  (case ft_net s of None \<Rightarrow> Inl TypeError
                   | Some ft \<Rightarrow>
                       Inr (map (slice_from (- n_new_classes)) output,
                            map (slice_from (- n_new_classes)) (fst (call_net w s ft images))))
                else Inr (map (slice_from (- n_new_classes)) output,
                          map (slice_from (- n_new_classes)) labels)
              else Inr (output, labels))
             (\<lambda>(ci, ct).
                case prev_net s of None \<Rightarrow> Inl TypeError
                | Some prev \<Rightarrow>
                    (let (prev_output, prev_features) = call_net w s prev images
                     in if use_cosine s
                        then Inr \<lparr>class_input = ci, class_target = ct,
                                 dist_input = Some features, dist_target = Some prev_features\<rparr>
                        else Inr \<lparr>class_input = ci, class_target = ct,
                                 dist_input = Some (map (slice_to (- n_new_classes)) output),
                                 dist_target = Some prev_output\<rparr>))
         else Inr \<lparr>class_input = output, class_target = labels,
                  dist_input = None, dist_target = None\<rparr>)"

definition loss_step ::
  "('b, 'img, 'g) world \<Rightarrow> real \<Rightarrow> ('b, 'img, 'g) session \<Rightarrow> signals \<Rightarrow> ('b, 'img, 'g) session"
  where
  \<comment> \<open>Lines 156 to 160: the loss of the four signals and the class ratio, its
      gradient, and one step of the optimizer on the parameters of the net, in place.\<close>
  "loss_step w class_ratio s sig =
     (let p = optimizer_step w sig class_ratio (read_parameters s (net s))
      in s\<lparr>net := write_parameters p (net s),
           heap := (heap s)(weight (fc (net s)) := p_weight p)\<rparr>)"

definition train_batch ::
  "('b, 'img, 'g) world \<Rightarrow> real \<Rightarrow> ('b, 'img, 'g) session \<Rightarrow> 'img list \<times> int list
     \<Rightarrow> error + ('b, 'img, 'g) session" where
  \<comment> \<open>One pass of the loop over the batches, lines 126 to 161.\<close>
  "train_batch w class_ratio s b =
     bindE (train_signals w s (fst b) (transform_labels_onehot w (snd b) (n_known_classes s)))
       (\<lambda>sig. Inr (loss_step w class_ratio s sig))"

fun foldE :: "('s \<Rightarrow> 'a \<Rightarrow> error + 's) \<Rightarrow> 's \<Rightarrow> 'a list \<Rightarrow> error + 's" where
  "foldE f s [] = Inr s"
| "foldE f s (x # xs) = bindE (f s x) (\<lambda>s'. foldE f s' xs)"

definition py_range :: "int \<Rightarrow> nat list" where
  \<comment> \<open>\<^verbatim>\<open>range(n)\<close>: empty when \<open>n \<le> 0\<close>.\<close>
  "py_range n = [0..<nat n]"

definition train ::
  "('b, 'img, 'g) world \<Rightarrow> (nat \<Rightarrow> ('img list \<times> int list) list) \<Rightarrow> ('b, 'img, 'g) session
     \<Rightarrow> error + ('b, 'img, 'g) session" where
  \<comment> \<open>\<open>dataloader e\<close> is the list of batches that iterating the loader yields in
      epoch \<open>e\<close>.\<close>
  "train w dataloader s =
     (if n_known_classes s = 0 then Inl ZeroDivisionError
      else
        let class_ratio = real_of_int (classes_per_group s) / real_of_int (n_known_classes s)
        in if current_step s > 0 \<and> use_distillation s \<and> prev_net s = None then Inl AttributeError
           else if current_step s > 0 \<and> use_distillation s \<and> use_variation s \<and> ft_net s = None
           then Inl AttributeError
           else foldE (\<lambda>s epoch. foldE (train_batch w class_ratio) s (dataloader epoch)) s
                  (py_range (NUM_EPOCHS (train_params s))))"

definition train_ft_batch ::
  "('b, 'img, 'g) world \<Rightarrow> ('b, 'img, 'g) session \<Rightarrow> 'img list \<times> int list
     \<Rightarrow> error + ('b, 'img, 'g) session" where
  "train_ft_batch w s b =
     (case ft_net s of None \<Rightarrow> Inl TypeError
      | Some ft \<Rightarrow>
          let labels = transform_labels_onehot w (snd b) (n_known_classes s);
              output = fst (call_net w s ft (fst b));
              p = optimizer_step w \<lparr>class_input = output, class_target = labels,
                                     dist_input = None, dist_target = None\<rparr> 1
                    (read_parameters s ft)
          in Inr (s\<lparr>ft_net := Some (write_parameters p ft),
                    heap := (heap s)(weight (fc ft) := p_weight p)\<rparr>))"

definition train_ft ::
  "('b, 'img, 'g) world \<Rightarrow> (nat \<Rightarrow> ('img list \<times> int list) list) \<Rightarrow> ('b, 'img, 'g) session
     \<Rightarrow> error + ('b, 'img, 'g) session" where
  "train_ft w dataloader s =
     (if use_variation s then
        if ft_net s = None then Inl AttributeError
        else foldE (\<lambda>s epoch. foldE (train_ft_batch w) s (dataloader epoch)) s
               (py_range (NUM_EPOCHS (train_params s)))
      else Inr s)"

section \<open>Exemplar memory: update_exemplars\<close>

definition l2_norm :: "vec \<Rightarrow> real" where
  \<comment> \<open>\<^verbatim>\<open>torch.norm(v, p = 2)\<close>\<close>
  "l2_norm v = sqrt (sum_list (map (\<lambda>x. x\<^sup>2) v))"

definition F_normalize :: "matrix \<Rightarrow> matrix" where
  \<comment> \<open>\<^verbatim>\<open>F.normalize(x, p = 2)\<close>: every row divided by its norm, the norm clamped
      below by \<^verbatim>\<open>eps = 1e-12\<close>.\<close>
  "F_normalize x = map (\<lambda>v. map (\<lambda>a. a / max (l2_norm v) (1 / 10 ^ 12)) v) x"

definition torch_sum :: "matrix \<Rightarrow> real" where
  \<comment> \<open>\<^verbatim>\<open>torch.sum(x)\<close> with no dimension: the sum of all entries, a scalar.\<close>
  "torch_sum x = sum_list (map sum_list x)"

function chunks :: "nat \<Rightarrow> 'a list \<Rightarrow> 'a list list" where
  "chunks n xs = (if n = 0 \<or> xs = [] then [] else take n xs # chunks n (drop n xs))"
  by pat_completeness auto
termination
  by (relation "measure (\<lambda>(n, xs). length xs)") auto

declare chunks.simps [simp del]

definition DataLoader :: "int \<Rightarrow> 'a list \<Rightarrow> error + 'a list list" where
  \<comment> \<open>\<^verbatim>\<open>DataLoader(dataset, batch_size = b)\<close> without shuffling: consecutive batches
      of \<open>b\<close> samples, the last one shorter; \<open>b \<le> 0\<close> raises.\<close>
  "DataLoader b dataset = (if b \<le> 0 then Inl ValueError else Inr (chunks (nat b) dataset))"

definition class_features ::
  "('b, 'img, 'g) world \<Rightarrow> ('b, 'img, 'g) session \<Rightarrow> ('img \<times> int) list \<Rightarrow> matrix" where
  \<comment> \<open>\<^verbatim>\<open>self.net(images, output = "features")\<close> on a batch of samples.\<close>
  "class_features w s batch = snd (call_net w s (net s) (map fst batch))"

definition features_step ::
  "('b, 'img, 'g) world \<Rightarrow> ('b, 'img, 'g) session \<Rightarrow> ('img \<times> int) list
     \<Rightarrow> vec \<times> matrix list \<times> nat \<Rightarrow> vec \<times> matrix list \<times> nat" where
  \<comment> \<open>One pass of the loop of lines 175 to 180 over a batch.\<close>
  "features_step w s batch acc =
     (case acc of (mean, batch_features, tot_images) \<Rightarrow>
        let features = class_features w s batch
        in (map (\<lambda>x. x + torch_sum features) mean,
            batch_features @ [features],
            tot_images + length features))"

definition get_features_representation ::
  "('b, 'img, 'g) world \<Rightarrow> ('b, 'img, 'g) session \<Rightarrow> ('img \<times> int) list list
     \<Rightarrow> error + matrix \<times> vec" where
  \<comment> \<open>\<^verbatim>\<open>torch.cat\<close> of an empty list raises. Where the norm of \<open>mean\<close> is 0,
      torch divides 0 by 0 and returns NaN; the reals give 0 there, and what is proved
      of the selection by distance leaves that case out.\<close>
  "get_features_representation w s dataloader =
     (case fold (features_step w s) dataloader
             (replicate (in_features (fc (net s))) 0, [], 0) of
        (mean, batch_features, tot_images) \<Rightarrow>
          let mean' = map (\<lambda>x. x / real tot_images) mean
          in if batch_features = [] then Inl RuntimeError
             else Inr (F_normalize (concat batch_features),
                       map (\<lambda>x. x / l2_norm mean') mean'))"

definition argmin :: "real list \<Rightarrow> error + nat" where
  \<comment> \<open>\<^verbatim>\<open>t.argmin().item()\<close>: the first index of a least entry; an empty tensor
      raises.\<close>
  "argmin xs =
     (if xs = [] then Inl RuntimeError
      else Inr (length (takeWhile (\<lambda>x. x \<noteq> Min (set xs)) xs)))"

definition set_item :: "real \<Rightarrow> real list \<Rightarrow> nat \<Rightarrow> error + real list" where
  \<comment> \<open>\<^verbatim>\<open>t[idx] = v\<close> for an index that is not negative.\<close>
  "set_item v t idx = (if idx < length t then Inr (t[idx := v]) else Inl IndexError)"

definition get_closest_exemplar_idx :: "vec \<Rightarrow> matrix \<Rightarrow> nat list \<Rightarrow> error + nat" where
  \<comment> \<open>The rows of \<open>features\<close> have the width of \<open>label_mean\<close>: torch raises on
      any other shape, where \<open>map2\<close> would cut the longer list.\<close>
  "get_closest_exemplar_idx label_mean features idx_taken =
     (let features' = F_normalize features;
          distances = map (\<lambda>f. sum_list (map2 (\<lambda>a b. (a - b)\<^sup>2) label_mean f)) features'
      in bindE (foldE (set_item 100000) distances idx_taken) argmin)"

fun herding :: "nat \<Rightarrow> vec \<Rightarrow> matrix \<Rightarrow> vec \<Rightarrow> nat list \<Rightarrow> error + nat list" where
  \<comment> \<open>The loop of lines 220 to 223, with the number of passes left.\<close>
  "herding 0 label_mean features exemplars_mean idx_taken = Inr idx_taken"
| "herding (Suc k) label_mean features exemplars_mean idx_taken =
     bindE (get_closest_exemplar_idx label_mean
              (map (\<lambda>f. map2 (+) f exemplars_mean) features) idx_taken)
       (\<lambda>idx. herding k label_mean features
                 (map2 (+) exemplars_mean (features ! idx)) (idx_taken @ [idx]))"

definition py_random_sample ::
  "('b, 'img, 'g) world \<Rightarrow> 'g \<Rightarrow> nat \<Rightarrow> int \<Rightarrow> error + nat list \<times> 'g" where
  \<comment> \<open>\<^verbatim>\<open>random.sample(range(n), k)\<close>: a negative or too large \<open>k\<close> raises.\<close>
  "py_random_sample w g n k =
     (if k < 0 \<or> int n < k then Inl ValueError else Inr (random_sample w g n (nat k)))"

definition iloc :: "'a list \<Rightarrow> nat \<Rightarrow> error + 'a" where
  "iloc rows idx = (if idx < length rows then Inr (rows ! idx) else Inl IndexError)"

fun mapE :: "('a \<Rightarrow> error + 'c) \<Rightarrow> 'a list \<Rightarrow> error + 'c list" where
  "mapE f [] = Inr []"
| "mapE f (x # xs) = bindE (f x) (\<lambda>y. bindE (mapE f xs) (\<lambda>ys. Inr (y # ys)))"

definition select_idx ::
  "('b, 'img, 'g) world \<Rightarrow> ('b, 'img, 'g) session \<Rightarrow> int \<Rightarrow> 'g \<Rightarrow> int
     \<Rightarrow> error + nat list \<times> 'g" where
  \<comment> \<open>Lines 212 to 226: the indices \<^verbatim>\<open>idx_taken\<close> chosen for one new label, under
      either policy, and the generator state.\<close>
  "select_idx w s m g label =
     (let dataset = SubCIFAR w label in
      bindE (DataLoader (BATCH_SIZE (train_params s)) dataset) (\<lambda>dataloader.
      bindE (get_features_representation w s dataloader) (\<lambda>(features, label_mean).
      let exemplars_mean = replicate (in_features (fc (net s))) 0;
          num_exemplars = min m (int (length dataset))
      in bindE (key ''exemplars_selection'' (exemplars_selection (approach_params s)))
           (\<lambda>policy.
             if policy = ''herding''
             then map_sum id (\<lambda>idx. (idx, g))
                    (herding (nat num_exemplars) label_mean features exemplars_mean [])
             else py_random_sample w g (length dataset) num_exemplars))))"

definition select_exemplars ::
  "('b, 'img, 'g) world \<Rightarrow> ('b, 'img, 'g) session \<Rightarrow> int
     \<Rightarrow> ('img \<times> int) list list \<times> 'g \<Rightarrow> int \<Rightarrow> error + ('img \<times> int) list list \<times> 'g" where
  \<comment> \<open>The body of the loop over \<^verbatim>\<open>new_labels\<close> (lines 210 to 232), on the list of
      exemplar sets and the generator state.\<close>
  "select_exemplars w s m acc label =
     (case acc of (exs, g) \<Rightarrow>
        bindE (select_idx w s m g label) (\<lambda>(idx_taken, g').
        bindE (mapE (iloc (SubCIFAR w label)) idx_taken) (\<lambda>exemplar_set.
        Inr (exs @ [exemplar_set], g'))))"

definition reduce_exemplar ::
  "int \<Rightarrow> 'a list list \<Rightarrow> nat \<Rightarrow> error + 'a list list" where
  \<comment> \<open>\<^verbatim>\<open>self.exemplars[i] = self.exemplars[i][:m]\<close>\<close>
  "reduce_exemplar m exs i =
     (if i < length exs then Inr (exs[i := slice_to m (exs ! i)]) else Inl IndexError)"

definition update_exemplars ::
  "('b, 'img, 'g) world \<Rightarrow> ('b, 'img, 'g) session \<Rightarrow> error + ('b, 'img, 'g) session" where
  "update_exemplars w s =
     (if use_exemplars s then
        bindE (case K s of None \<Rightarrow> Inl AttributeError | Some k \<Rightarrow> Inr k) (\<lambda>k.
        bindE (py_floordiv k (n_known_classes s)) (\<lambda>m.
        let n_old_classes = n_known_classes s - classes_per_group s in
        bindE (py_index (labels_split s) (current_step s)) (\<lambda>new_labels.
        bindE (case exemplars s of None \<Rightarrow> Inl TypeError | Some exs \<Rightarrow> Inr exs) (\<lambda>exs.
        bindE (if current_step s > 0
               then foldE (reduce_exemplar m) exs (py_range n_old_classes)
               else Inr exs) (\<lambda>exs'.
        bindE (foldE (select_exemplars w s m) (exs', random_state s) new_labels)
          (\<lambda>(exs'', g).
        Inr (s\<lparr>exemplars := Some exs'', random_state := g\<rparr>)))))))
      else Inr s)"

section \<open>Sessions as sequences of calls\<close>

text \<open>
  The methods a caller may invoke on a session, with what each one takes from outside:
  the fresh bias of the regrown layer, the batches of each epoch.
\<close>

datatype 'img call =
    Step
  | Update_nets vec
  | Train "nat \<Rightarrow> ('img list \<times> int list) list"
  | Train_ft "nat \<Rightarrow> ('img list \<times> int list) list"
  | Update_exemplars

fun do_call ::
  "('b, 'img, 'g) world \<Rightarrow> ('b, 'img, 'g) session \<Rightarrow> 'img call
     \<Rightarrow> error + ('b, 'img, 'g) session" where
  "do_call w s Step = Inr (step s)"
| "do_call w s (Update_nets fresh_bias) = update_nets fresh_bias s"
| "do_call w s (Train dataloader) = train w dataloader s"
| "do_call w s (Train_ft dataloader) = train_ft w dataloader s"
| "do_call w s Update_exemplars = update_exemplars w s"

definition run ::
  "('b, 'img, 'g) world \<Rightarrow> ('b, 'img, 'g) session \<Rightarrow> 'img call list
     \<Rightarrow> error + ('b, 'img, 'g) session" where
  "run w s calls = foldE (do_call w) s calls"

definition is_step :: "'img call \<Rightarrow> bool" where
  "is_step c = (case c of Step \<Rightarrow> True | _ \<Rightarrow> False)"

definition head_weights :: "('b, 'img, 'g) session \<Rightarrow> matrix" where
  \<comment> \<open>\<^verbatim>\<open>self.net.fc.weight.data\<close>\<close>
  "head_weights s = heap s (weight (fc (net s)))"

section \<open>The properties in the words of the specification\<close>

definition last_columns :: "int \<Rightarrow> 'a list \<Rightarrow> 'a list" where
  \<comment> \<open>A row restricted to its last \<open>n\<close> columns.\<close>
  "last_columns n row = drop (length row - nat n) row"

definition known_columns :: "int \<Rightarrow> 'a list \<Rightarrow> 'a list" where
  \<comment> \<open>A row restricted to the columns before its last \<open>n\<close>: those of the classes
      known before the step.\<close>
  "known_columns n row = take (length row - nat n) row"

definition unit_vector :: "vec \<Rightarrow> vec" where
  \<comment> \<open>A vector divided by its L2 norm.\<close>
  "unit_vector v = map (\<lambda>x. x / l2_norm v) v"

definition columnwise_mean :: "matrix \<Rightarrow> vec" where
  \<comment> \<open>The component-wise average of the rows of a matrix whose rows have the
      length of the first one.\<close>
  "columnwise_mean x =
     map (\<lambda>j. sum_list (map (\<lambda>row. row ! j) x) / real (length x)) [0..<length (hd x)]"




section \<open>Conditions and invariants\<close>



definition features_shaped :: "('b, 'img, 'g) world \<Rightarrow> ('b, 'img, 'g) session \<Rightarrow> bool" where
  \<comment> \<open>The model boundary: the net returns one feature row per image, each of the
      width that the head declares as \<^verbatim>\<open>in_features\<close>.\<close>
  "features_shaped w s =
     (\<forall>images. length (snd (call_net w s (net s) images)) = length images
        \<and> (\<forall>row \<in> set (snd (call_net w s (net s) images)).
              length row = in_features (fc (net s))))"

definition class_feature_total ::
  "('b, 'img, 'g) world \<Rightarrow> ('b, 'img, 'g) session \<Rightarrow> int \<Rightarrow> real" where
  \<comment> \<open>What the loop of lines 175 to 180 has added to every component of \<^verbatim>\<open>mean\<close>
      when it ends: the sum of all entries of the features of the class.\<close>
  "class_feature_total w s label =
     sum_list (map (\<lambda>batch. torch_sum (class_features w s batch))
       (chunks (nat (BATCH_SIZE (train_params s))) (SubCIFAR w label)))"

definition net_trained :: "('b, 'img, 'g) session \<Rightarrow> ('b, 'img, 'g) session \<Rightarrow> bool" where
  \<comment> \<open>What training the main net may change: the parameters of the net, in place.\<close>
  "net_trained s s' =
     (\<exists>n h. s' = s\<lparr>net := n, heap := h\<rparr> \<and> weight (fc n) = weight (fc (net s))
        \<and> in_features (fc n) = in_features (fc (net s))
        \<and> (\<forall>r. r \<noteq> weight (fc (net s)) \<longrightarrow> h r = heap s r))"

definition ft_trained :: "('b, 'img, 'g) session \<Rightarrow> ('b, 'img, 'g) session \<Rightarrow> bool" where
  \<comment> \<open>What training the auxiliary net may change: its own parameters, in place.\<close>
  "ft_trained s s' =
     (\<exists>f h. s' = s\<lparr>ft_net := f, heap := h\<rparr>
        \<and> map_option (\<lambda>n. weight (fc n)) f = map_option (\<lambda>n. weight (fc n)) (ft_net s)
        \<and> (\<forall>r. Some r \<noteq> map_option (\<lambda>n. weight (fc n)) (ft_net s) \<longrightarrow> h r = heap s r))"

definition allocated :: "('b, 'img, 'g) session \<Rightarrow> bool" where
  \<comment> \<open>Every tensor object a session names exists, and the auxiliary net has a head
      tensor of its own.\<close>
  "allocated s =
     (weight (fc (net s)) < next_ref s \<and> init_weights s < next_ref s
      \<and> (\<forall>ft. ft_net s = Some ft \<longrightarrow>
             weight (fc ft) < next_ref s \<and> weight (fc ft) \<noteq> init_weights s
             \<and> weight (fc ft) \<noteq> weight (fc (net s))))"

definition detached :: "('b, 'img, 'g) session \<Rightarrow> bool" where
  \<comment> \<open>The head of the net is no longer the tensor that \<^verbatim>\<open>self.init_weights\<close>
      names.\<close>
  "detached s = (weight (fc (net s)) \<noteq> init_weights s)"


section \<open>Example inputs\<close>

definition example_permutation :: "int \<Rightarrow> nat \<Rightarrow> int list" where
  \<comment> \<open>The permutation that keeps the order of the labels.\<close>
  "example_permutation seed n = map int [0..<n]"

definition example_collaborators :: "(unit, nat) collaborators" where
  "example_collaborators =
     \<lparr>LabelsSplitter = LabelsSplitter_spec example_permutation,
      resnet32 = (\<lambda>cosine. Inr ((), 2)),
      kaiming_normal = [[1, 2], [3, 4]], bias0 = [0, 0], sigma0 = 1,
      SGD = (\<lambda>lr momentum weight_decay. Inr ()),
      MultiStepLR = (\<lambda>milestones gamma. Inr ()),
      CustomizedLoss = (\<lambda>classification distillation. Inr ()),
      seed0 = 0\<rparr>"

definition example_approach :: approach_params where
  "example_approach =
     approach_params_icarl\<lparr>ap_use_cosine := Some False,
       exemplars_selection := Some ''herding'', n_exemplars := Some 4\<rparr>"

definition example_world :: "(unit, nat, nat) world" where
  \<comment> \<open>Images are numbers; the features of image \<open>i\<close> are \<open>(i, 1)\<close>.\<close>
  "example_world =
     \<lparr>forward = (\<lambda>n w images. (map (\<lambda>i. map (\<lambda>row. sum_list row * real i) w) images,
                               map (\<lambda>i. [real i, 1]) images)),
      transform_labels_onehot =
        (\<lambda>labels n. map (\<lambda>l. map (\<lambda>j. if int j = l then 1 else 0) [0..<nat n]) labels),
      optimizer_step = (\<lambda>sig ratio p. p\<lparr>p_weight := map (map (\<lambda>x. x + 1)) (p_weight p)\<rparr>),
      SubCIFAR = (\<lambda>label. [(1, label), (2, label), (3, label)]),
      random_sample = (\<lambda>g n k. ([0..<k], Suc g))\<rparr>"

definition example_train_params :: train_params where
  "example_train_params = train_params_base\<lparr>NUM_EPOCHS := 1, BATCH_SIZE := 2\<rparr>"

definition example_session :: "(unit, nat, nat) session" where
  \<comment> \<open>A fresh session for 10 classes in 5 groups.\<close>
  "example_session =
     projr (IncrementalLearner_init example_collaborators 10 5 0 example_approach
              example_train_params)"

definition example_loader :: "nat \<Rightarrow> (nat list \<times> int list) list" where
  \<comment> \<open>One batch of two images in every epoch.\<close>
  "example_loader epoch = [([1, 2], [0, 1])]"

definition example_step1 :: "(unit, nat, nat) session" where
  \<comment> \<open>The example session at step 1, after \<open>step\<close>, \<open>train\<close>, \<open>step\<close> and
      \<open>update_nets\<close>.\<close>
  "example_step1 =
     example_session
       \<lparr>net := \<lparr>backbone = (),
                 fc = \<lparr>in_features = 2, weight = 2, bias = [0, 0, 0, 0], sigma = None\<rparr>\<rparr>,
        prev_net := Some \<lparr>backbone = (),
                 fc = \<lparr>in_features = 2, weight = 1, bias = [0, 0], sigma = None\<rparr>\<rparr>,
        current_step := 1, n_known_classes := 4,
        heap := (\<lambda>_. [])(0 := [[2, 3], [4, 5]], 1 := [[2, 3], [4, 5]],
                           2 := [[2, 3], [4, 5], [2, 3], [4, 5]]),
        next_ref := 3\<rparr>"

definition example_approach_no_distillation :: approach_params where
  \<comment> \<open>The variation flag set, the distillation flag not.\<close>
  "example_approach_no_distillation =
     approach_params_lwf\<lparr>ap_use_cosine := Some False, ap_use_variation := Some True\<rparr>"

definition example_session_no_distillation :: "(unit, nat, nat) session" where
  "example_session_no_distillation =
     projr (IncrementalLearner_init example_collaborators 10 5 0
              example_approach_no_distillation example_train_params)"






definition example_loader_new :: "nat \<Rightarrow> (nat list \<times> int list) list" where
  \<comment> \<open>One batch of two images of the classes 2 and 3 in every epoch.\<close>
  "example_loader_new epoch = [([1, 2], [2, 3])]"

section \<open>Basic facts\<close>

lemma bindE_simps [simp]: "bindE (Inl e) f = Inl e" "bindE (Inr x) f = f x"
  by (simp_all add: bindE_def)

lemma bindE_Inr_iff: "bindE m f = Inr y \<longleftrightarrow> (\<exists>x. m = Inr x \<and> f x = Inr y)"
  by (cases m) simp_all


lemma key_simps [simp]: "key k None = Inl (KeyError k)" "key k (Some x) = Inr x"
  by (simp_all add: key_def)

lemma key_Inr_iff: "key k v = Inr x \<longleftrightarrow> v = Some x"
  by (cases v) simp_all

lemma py_floordiv_Inr_iff: "py_floordiv a b = Inr q \<longleftrightarrow> b \<noteq> 0 \<and> q = a div b"
  by (auto simp: py_floordiv_def)

lemma foldE_rel:
  assumes step: "\<And>s x s'. f s x = Inr s' \<Longrightarrow> R s s'"
    and refl: "\<And>s. R s s"
    and trans: "\<And>a b c. R a b \<Longrightarrow> R b c \<Longrightarrow> R a c"
  shows "foldE f s xs = Inr s' \<Longrightarrow> R s s'"
proof (induction xs arbitrary: s)
  case Nil
  then show ?case by (simp add: refl)
next
  case (Cons x xs)
  then obtain t where t: "f s x = Inr t" "foldE f t xs = Inr s'"
    by (auto simp: bindE_Inr_iff)
  from step [OF t(1)] Cons.IH [OF t(2)] show ?case by (rule trans)
qed

subsection \<open>What each method leaves alone\<close>

lemma net_trained_refl: "net_trained s s"
  unfolding net_trained_def
  by (rule exI [of _ "net s"], rule exI [of _ "heap s"]) simp

lemma net_trained_trans: "net_trained a b \<Longrightarrow> net_trained b c \<Longrightarrow> net_trained a c"
  unfolding net_trained_def by (elim exE conjE) (simp, metis)

lemma train_batch_trained: "train_batch w r s b = Inr s' \<Longrightarrow> net_trained s s'"
  unfolding train_batch_def loss_step_def net_trained_def
  apply (clarsimp simp: bindE_Inr_iff Let_def)
  apply (rule exI, rule exI, rule conjI, rule refl)
  apply (simp add: write_parameters_def)
  done

lemma train_trained: "train w dl s = Inr s' \<Longrightarrow> net_trained s s'"
  unfolding train_def
  apply (simp split: if_splits add: Let_def)
  apply (erule foldE_rel [rotated 3])
    apply (erule foldE_rel [rotated 3])
      apply (erule train_batch_trained)
     apply (rule net_trained_refl)
    apply (erule (1) net_trained_trans)
     apply (rule net_trained_refl)
    apply (erule (1) net_trained_trans)
  done


lemma ft_trained_refl: "ft_trained s s"
  unfolding ft_trained_def
  by (rule exI [of _ "ft_net s"], rule exI [of _ "heap s"]) simp

lemma ft_trained_trans: "ft_trained a b \<Longrightarrow> ft_trained b c \<Longrightarrow> ft_trained a c"
  unfolding ft_trained_def
  apply (elim exE conjE)
  apply simp
  apply (rule exI, rule exI, rule conjI, rule refl)
  apply simp
  done

lemma train_ft_batch_trained: "train_ft_batch w s b = Inr s' \<Longrightarrow> ft_trained s s'"
  unfolding train_ft_batch_def ft_trained_def
  apply (clarsimp simp: Let_def split: option.splits)
  apply (rule exI, rule exI, rule conjI, rule refl)
  apply (simp add: write_parameters_def)
  done

lemma train_ft_trained: "train_ft w dl s = Inr s' \<Longrightarrow> ft_trained s s'"
  unfolding train_ft_def
  apply (simp split: if_splits add: ft_trained_refl)
  apply (erule foldE_rel [rotated 3])
    apply (erule foldE_rel [rotated 3])
      apply (erule train_ft_batch_trained)
     apply (rule ft_trained_refl)
    apply (erule (1) ft_trained_trans)
   apply (rule ft_trained_refl)
  apply (erule (1) ft_trained_trans)
  done

lemma exemplars_frame_intros:
  "\<exists>e g. s\<lparr>exemplars := a, random_state := b\<rparr> = s\<lparr>exemplars := e, random_state := g\<rparr>"
  "\<exists>e g. (s :: ('b, 'img, 'g) session) = s\<lparr>exemplars := e, random_state := g\<rparr>"
   apply (rule exI, rule exI, rule refl)
  apply (rule exI [of _ "exemplars s"], rule exI [of _ "random_state s"])
  apply simp
  done

lemma update_exemplars_frame:
  "update_exemplars w s = Inr s' \<Longrightarrow> \<exists>e g. s' = s\<lparr>exemplars := e, random_state := g\<rparr>"
  unfolding update_exemplars_def
  by (auto simp: bindE_Inr_iff Let_def exemplars_frame_intros split: if_splits)

lemma update_nets_first: "current_step s \<le> 0 \<Longrightarrow> update_nets b s = Inr s"
  by (simp add: update_nets_def)

lemma save_prev_net_eq:
  "\<exists>p h r. save_prev_net s = s\<lparr>prev_net := p, heap := h, next_ref := r\<rparr>
     \<and> next_ref s \<le> r \<and> (\<forall>a. a \<noteq> next_ref s \<longrightarrow> h a = heap s a)
     \<and> h (weight (fc (net s))) = heap s (weight (fc (net s)))"
  unfolding save_prev_net_def deepcopy_def
  apply (cases "use_distillation s")
   apply (rule exI [of _ "Some (net s\<lparr>fc := fc (net s)\<lparr>weight := next_ref s\<rparr>\<rparr>)"],
      rule exI [of _ "(heap s)(next_ref s := heap s (weight (fc (net s))))"],
      rule exI [of _ "Suc (next_ref s)"])
   apply simp
  apply (rule exI [of _ "prev_net s"], rule exI [of _ "heap s"], rule exI [of _ "next_ref s"])
  apply simp
  done

lemma grow_head_eq:
  assumes "grow_head b s = Inr s'"
  shows "\<exists>sg. s' = replace_fc b sg (heap s (weight (fc (net s))) @ heap s (init_weights s)) s"
  using assms unfolding grow_head_def
  by (auto simp: bindE_Inr_iff Let_def split: if_splits option.splits)

lemma prepare_ft_net_eq:
  "\<exists>f h r. prepare_ft_net s = s\<lparr>ft_net := f, heap := h, next_ref := r\<rparr>
     \<and> next_ref s \<le> r \<and> (\<forall>a. a \<noteq> next_ref s \<longrightarrow> h a = heap s a)
     \<and> (\<not> use_variation s \<longrightarrow> f = ft_net s)
     \<and> (\<forall>n. f = Some n \<and> use_variation s \<longrightarrow> weight (fc n) = next_ref s \<and> r = Suc (next_ref s))"
  unfolding prepare_ft_net_def deepcopy_def
  apply (cases "use_variation s")
   apply (rule exI [of _ "Some (net s\<lparr>fc := fc (net s)\<lparr>weight := next_ref s\<rparr>\<rparr>)"],
      rule exI [of _ "(heap s)(next_ref s := heap s (weight (fc (net s))))"],
      rule exI [of _ "Suc (next_ref s)"])
   apply simp
  apply (rule exI [of _ "ft_net s"], rule exI [of _ "heap s"], rule exI [of _ "next_ref s"])
  apply simp
  done

lemma update_nets_grow:
  assumes "update_nets b s = Inr s'" "current_step s > 0"
  shows "head_weights s' = head_weights s @ heap (save_prev_net s) (init_weights s)"
proof -
  from assms obtain s2 where s2: "grow_head b (save_prev_net s) = Inr s2" "s' = prepare_ft_net s2"
    by (auto simp: update_nets_def bindE_Inr_iff)
  obtain p h r where s1: "save_prev_net s = s\<lparr>prev_net := p, heap := h, next_ref := r\<rparr>"
    "h (weight (fc (net s))) = heap s (weight (fc (net s)))"
    using save_prev_net_eq [of s] by blast
  from grow_head_eq [OF s2(1)] obtain sg where
    g: "s2 = replace_fc b sg (heap (save_prev_net s) (weight (fc (net (save_prev_net s))))
           @ heap (save_prev_net s) (init_weights (save_prev_net s))) (save_prev_net s)"
    by blast
  obtain f h' r' where s3: "prepare_ft_net s2 = s2\<lparr>ft_net := f, heap := h', next_ref := r'\<rparr>"
    "\<forall>a. a \<noteq> next_ref s2 \<longrightarrow> h' a = heap s2 a"
    using prepare_ft_net_eq [of s2] by blast
  have "weight (fc (net s2)) \<noteq> next_ref s2" using g by (simp add: replace_fc_def)
  then have "head_weights s' = head_weights s2"
    using s2(2) s3 by (simp add: head_weights_def)
  also have "\<dots> = head_weights s @ heap (save_prev_net s) (init_weights s)"
    using g s1 by (simp add: head_weights_def replace_fc_def)
  finally show ?thesis .
qed

lemma update_nets_config:
  assumes "update_nets b s = Inr s'"
  shows "current_step s' = current_step s \<and> n_known_classes s' = n_known_classes s
     \<and> classes_per_group s' = classes_per_group s \<and> use_variation s' = use_variation s
     \<and> use_distillation s' = use_distillation s \<and> use_cosine s' = use_cosine s
     \<and> init_weights s' = init_weights s
     \<and> (\<not> use_variation s \<longrightarrow> ft_net s' = ft_net s)"
proof (cases "current_step s > 0")
  case False
  with assms show ?thesis by (simp add: update_nets_def)
next
  case True
  with assms obtain s2 where s2: "grow_head b (save_prev_net s) = Inr s2" "s' = prepare_ft_net s2"
    by (auto simp: update_nets_def bindE_Inr_iff)
  obtain p h r where s1: "save_prev_net s = s\<lparr>prev_net := p, heap := h, next_ref := r\<rparr>"
    using save_prev_net_eq [of s] by blast
  from grow_head_eq [OF s2(1)] obtain sg w where
    g: "s2 = replace_fc b sg w (save_prev_net s)"
    by blast
  obtain f h' r' where s3: "prepare_ft_net s2 = s2\<lparr>ft_net := f, heap := h', next_ref := r'\<rparr>"
    "\<not> use_variation s2 \<longrightarrow> f = ft_net s2"
    using prepare_ft_net_eq [of s2] by blast
  show ?thesis using s2(2) s3 g s1 by (simp add: replace_fc_def)
qed

lemma do_call_config:
  assumes "do_call w s c = Inr s'"
  shows "current_step s' = current_step s + (if is_step c then 1 else 0)
     \<and> n_known_classes s' = n_known_classes s + (if is_step c then classes_per_group s else 0)
     \<and> classes_per_group s' = classes_per_group s \<and> use_variation s' = use_variation s
     \<and> use_distillation s' = use_distillation s \<and> use_cosine s' = use_cosine s
     \<and> init_weights s' = init_weights s
     \<and> (\<not> use_variation s \<longrightarrow> ft_net s' = ft_net s)"
proof (cases c)
  case Step
  with assms show ?thesis by (auto simp: step_def is_step_def)
next
  case (Update_nets b)
  with assms update_nets_config [of b s s'] show ?thesis by (simp add: is_step_def)
next
  case (Train dl)
  with assms have "net_trained s s'" by (simp add: train_trained)
  with Train show ?thesis by (auto simp: net_trained_def is_step_def)
next
  case (Train_ft dl)
  with assms have tf: "train_ft w dl s = Inr s'" by simp
  have "ft_trained s s'" by (rule train_ft_trained [OF tf])
  moreover have "\<not> use_variation s \<Longrightarrow> s' = s" using tf by (simp add: train_ft_def)
  ultimately show ?thesis using Train_ft by (auto simp: ft_trained_def is_step_def)
next
  case Update_exemplars
  with assms update_exemplars_frame [of w s s'] show ?thesis by (auto simp: is_step_def)
qed

lemma run_config:
  "run w s calls = Inr s' \<Longrightarrow>
     current_step s' = current_step s + int (length (filter is_step calls))
     \<and> n_known_classes s' = n_known_classes s + int (length (filter is_step calls)) * classes_per_group s
     \<and> classes_per_group s' = classes_per_group s \<and> use_variation s' = use_variation s
     \<and> use_distillation s' = use_distillation s \<and> use_cosine s' = use_cosine s
     \<and> init_weights s' = init_weights s
     \<and> (\<not> use_variation s \<longrightarrow> ft_net s' = ft_net s)"
proof (induction calls arbitrary: s)
  case Nil
  then show ?case by (simp add: run_def)
next
  case (Cons c calls)
  then obtain t where t: "do_call w s c = Inr t" "run w t calls = Inr s'"
    by (auto simp: run_def bindE_Inr_iff)
  from do_call_config [OF t(1)] Cons.IH [OF t(2)] show ?case
    by (simp add: algebra_simps)
qed

lemma init_fields:
  assumes "IncrementalLearner_init c nc ng seed ap tp = Inr s"
  shows "current_step s = - 1 \<and> n_known_classes s = 0 \<and> classes_per_group s = nc div ng
     \<and> ng \<noteq> 0 \<and> ft_net s = None \<and> prev_net s = None
     \<and> use_distillation s = (ap_use_distillation ap = Some True)
     \<and> use_variation s = (ap_use_distillation ap = Some True \<and> ap_use_variation ap = Some True)
     \<and> init_weights s = weight (fc (net s)) \<and> allocated s"
  using assms unfolding IncrementalLearner_init_def bindE_Inr_iff key_Inr_iff py_floordiv_Inr_iff
  apply (elim exE conjE)
  apply (simp add: allocated_def)
  apply (auto simp: key_Inr_iff split: if_splits)
  done

section \<open>The step counter\<close>

text \<open>
  C9. On a freshly constructed session, after a sequence of calls that succeeds and in
  which \<open>step\<close> occurs exactly \<open>n + 1\<close> times (whatever the other calls are), the
  current step index is \<open>n\<close> and \<open>n_known_classes\<close> is \<open>n + 1\<close> times the
  classes per group.
\<close>

theorem step_counts:
  assumes "IncrementalLearner_init c nc ng seed ap tp = Inr s0"
    and "run w s0 calls = Inr s"
    and "length (filter is_step calls) = Suc n"
  shows "current_step s = int n \<and> n_known_classes s = (int n + 1) * classes_per_group s0"
  using init_fields [OF assms(1)] run_config [OF assms(2)] assms(3) by simp

lemma example_split:
  "LabelsSplitter_spec example_permutation 10 5 seed
     = Inr [[0, 1], [2, 3], [4, 5], [6, 7], [8, 9]]"
  by (simp add: LabelsSplitter_spec_def example_permutation_def upt_rec numeral_2_eq_2)

lemma example_init:
  "IncrementalLearner_init example_collaborators 10 5 0 example_approach example_train_params
     = Inr example_session"
  by (simp add: example_session_def IncrementalLearner_init_def py_floordiv_def new_head_def
      example_collaborators_def example_approach_def approach_params_icarl_def
      example_split example_train_params_def train_params_base_def)

lemma example_session_fields:
  "classes_per_group example_session = 2" "current_step example_session = - 1"
  "n_known_classes example_session = 0" "use_distillation example_session"
  "\<not> use_variation example_session" "\<not> use_cosine example_session"
  "use_exemplars example_session" "K example_session = Some 4"
  "exemplars example_session = Some []"
  by (simp_all add: example_session_def IncrementalLearner_init_def py_floordiv_def new_head_def
      example_collaborators_def example_approach_def approach_params_icarl_def
      example_split example_train_params_def train_params_base_def)

theorem step_counts_witness:
  "current_step (step (step (step example_session))) = 2
   \<and> n_known_classes (step (step (step example_session))) = 6"
proof -
  have r: "run example_world example_session [Step, Step, Step]
             = Inr (step (step (step example_session)))"
    by (simp add: run_def)
  have l: "length (filter is_step ([Step, Step, Step] :: nat call list)) = Suc 2"
    by (simp add: is_step_def)
  from step_counts [OF example_init r l] show ?thesis
    by (simp add: example_session_fields)
qed

section \<open>Construction\<close>




lemma grow_head_succeeds:
  assumes "0 \<le> n_known_classes s" "use_cosine s \<longrightarrow> sigma (fc (net s)) \<noteq> None"
  shows "\<exists>s'. grow_head b s = Inr s'"
  using assms unfolding grow_head_def
  by (auto simp: Let_def new_head_def split: option.splits)

lemma save_prev_net_fields:
  "n_known_classes (save_prev_net s) = n_known_classes s"
  "use_cosine (save_prev_net s) = use_cosine s"
  "net (save_prev_net s) = net s"
  using save_prev_net_eq [of s] by auto

section \<open>Head growth\<close>

text \<open>
  C4. A call of \<open>update_nets\<close> past the first step, on a session whose class count
  is not negative (and, with a cosine head, whose head has its scale), succeeds, and
  the leading rows of the regrown head's weight matrix, as many as the prior head has,
  are exactly the prior head's rows.
\<close>

theorem update_nets_keeps_old_rows:
  assumes "current_step s > 0" "0 \<le> n_known_classes s"
    and "use_cosine s \<longrightarrow> sigma (fc (net s)) \<noteq> None"
  shows "\<exists>s'. update_nets b s = Inr s'
           \<and> take (length (head_weights s)) (head_weights s') = head_weights s"
proof -
  from grow_head_succeeds [of "save_prev_net s" b] assms(2,3)
  obtain s2 where "grow_head b (save_prev_net s) = Inr s2"
    by (auto simp: save_prev_net_fields)
  then have u: "update_nets b s = Inr (prepare_ft_net s2)"
    using assms(1) by (simp add: update_nets_def)
  from update_nets_grow [OF u assms(1)] u show ?thesis by simp
qed

lemma update_nets_growth:
  assumes a: "allocated s" and u: "update_nets b s = Inr s'" and c: "current_step s > 0"
  shows "allocated s' \<and> detached s' \<and> init_weights s' = init_weights s
     \<and> heap s' (init_weights s) = heap s (init_weights s)
     \<and> head_weights s' = head_weights s @ heap s (init_weights s)"
proof -
  from u c obtain s2 where s2: "grow_head b (save_prev_net s) = Inr s2" "s' = prepare_ft_net s2"
    by (auto simp: update_nets_def bindE_Inr_iff)
  obtain p h r where s1: "save_prev_net s = s\<lparr>prev_net := p, heap := h, next_ref := r\<rparr>"
    "next_ref s \<le> r" "\<forall>a. a \<noteq> next_ref s \<longrightarrow> h a = heap s a"
    using save_prev_net_eq [of s] by blast
  from grow_head_eq [OF s2(1)] obtain sg where
    g: "s2 = replace_fc b sg (heap (save_prev_net s) (weight (fc (net (save_prev_net s))))
           @ heap (save_prev_net s) (init_weights (save_prev_net s))) (save_prev_net s)"
    by blast
  obtain f h' r' where s3: "prepare_ft_net s2 = s2\<lparr>ft_net := f, heap := h', next_ref := r'\<rparr>"
    "next_ref s2 \<le> r'" "\<forall>a. a \<noteq> next_ref s2 \<longrightarrow> h' a = heap s2 a"
    "\<not> use_variation s2 \<longrightarrow> f = ft_net s2"
    "\<forall>n. f = Some n \<and> use_variation s2 \<longrightarrow> weight (fc n) = next_ref s2 \<and> r' = Suc (next_ref s2)"
    using prepare_ft_net_eq [of s2] by blast
  have i: "init_weights s < next_ref s" "weight (fc (net s)) < next_ref s"
    using a by (simp_all add: allocated_def)
  have hi: "h (init_weights s) = heap s (init_weights s)" using s1(3) i by simp
  have n2: "weight (fc (net s2)) = r" "next_ref s2 = Suc r" "ft_net s2 = ft_net s"
    "init_weights s2 = init_weights s"
    "heap s2 = h(r := heap (save_prev_net s) (weight (fc (net s))) @ h (init_weights s))"
    using g s1(1) by (simp_all add: replace_fc_def)
  have al: "allocated s'"
    unfolding allocated_def using s2(2) s3 n2 i s1(2) a
    by (cases "use_variation s2") (auto simp: allocated_def)
  have de: "detached s'" using s2(2) s3(1) n2 i s1(2) by (simp add: detached_def)
  have iw: "init_weights s' = init_weights s" using s2(2) s3(1) n2 by simp
  have hp: "heap s' (init_weights s) = heap s (init_weights s)"
    using s2(2) s3(1,3) n2 i s1(2) hi by simp
  from update_nets_grow [OF u c] have "head_weights s' = head_weights s @ heap s (init_weights s)"
    using s1(1) hi by simp
  with al de iw hp show ?thesis by simp
qed

lemma do_call_allocated:
  assumes a: "allocated s" and d: "do_call w s c = Inr s'"
  shows "allocated s' \<and> init_weights s' = init_weights s
     \<and> (detached s \<longrightarrow> detached s' \<and> heap s' (init_weights s) = heap s (init_weights s))"
proof (cases c)
  case Step
  with a d show ?thesis by (auto simp: step_def allocated_def detached_def)
next
  case (Update_nets b)
  show ?thesis
  proof (cases "current_step s > 0")
    case True
    with a d Update_nets update_nets_growth [of s b s'] show ?thesis by simp
  next
    case False
    with a d Update_nets show ?thesis by (simp add: update_nets_def)
  qed
next
  case (Train dl)
  with d have "net_trained s s'" by (simp add: train_trained)
  with a show ?thesis by (auto simp: net_trained_def allocated_def detached_def)
next
  case (Train_ft dl)
  with d have "ft_trained s s'" by (simp add: train_ft_trained)
  with a show ?thesis
    unfolding ft_trained_def allocated_def detached_def
    by (cases "ft_net s") auto
next
  case Update_exemplars
  with a d update_exemplars_frame [of w s s'] show ?thesis
    by (auto simp: allocated_def detached_def)
qed

lemma run_allocated:
  "allocated s \<Longrightarrow> run w s calls = Inr s' \<Longrightarrow>
     allocated s' \<and> init_weights s' = init_weights s
     \<and> (detached s \<longrightarrow> detached s' \<and> heap s' (init_weights s) = heap s (init_weights s))"
proof (induction calls arbitrary: s)
  case Nil
  then show ?case by (simp add: run_def)
next
  case (Cons c calls)
  from Cons.prems(2) obtain t where t: "do_call w s c = Inr t" "run w t calls = Inr s'"
    by (auto simp: run_def bindE_Inr_iff)
  from do_call_allocated [OF Cons.prems(1) t(1)] Cons.IH [OF _ t(2)] show ?case by auto
qed

lemma init_tensor:
  assumes "IncrementalLearner_init c nc ng seed ap tp = Inr s"
  shows "heap s (init_weights s) = kaiming_normal c"
  using assms unfolding IncrementalLearner_init_def bindE_Inr_iff
  by (elim exE conjE) auto

text \<open>
  C5. The tensor that \<open>init_weights\<close> names is the weight of the first head, filled at
  construction. Take any two head-growth events of a session: \<open>update_nets\<close> called
  past the first step on \<open>t1\<close>, reached from construction by any calls, and again on
  \<open>t2\<close>, reached from the result of the first by any calls. At both events
  \<open>init_weights\<close> names the tensor of construction, the regrown head is the old head
  followed by the content of that tensor, and the content is the same at both: the rows
  appended are identical, the tensor is reused and never made anew.
\<close>

theorem same_initialization_tensor:
  assumes "IncrementalLearner_init c nc ng seed ap tp = Inr s0"
    and "run w s0 before = Inr t1" and "0 < current_step t1" and "update_nets b1 t1 = Inr t1'"
    and "run w t1' between = Inr t2" and "0 < current_step t2" and "update_nets b2 t2 = Inr t2'"
  shows "init_weights s0 = weight (fc (net s0)) \<and> heap s0 (init_weights s0) = kaiming_normal c
     \<and> init_weights t1 = init_weights s0 \<and> init_weights t2 = init_weights s0
     \<and> head_weights t1' = head_weights t1 @ heap t1 (init_weights s0)
     \<and> head_weights t2' = head_weights t2 @ heap t2 (init_weights s0)
     \<and> heap t2 (init_weights s0) = heap t1 (init_weights s0)"
proof -
  from init_fields [OF assms(1)] have s0: "init_weights s0 = weight (fc (net s0))" "allocated s0"
    by simp_all
  from run_allocated [OF s0(2) assms(2)] have t1: "allocated t1" "init_weights t1 = init_weights s0"
    by simp_all
  from update_nets_growth [OF t1(1) assms(4,3)] t1(2)
  have t1': "allocated t1'" "detached t1'" "init_weights t1' = init_weights s0"
    "heap t1' (init_weights s0) = heap t1 (init_weights s0)"
    "head_weights t1' = head_weights t1 @ heap t1 (init_weights s0)"
    by simp_all
  from run_allocated [OF t1'(1) assms(5)] t1'(2,3,4)
  have t2: "allocated t2" "init_weights t2 = init_weights s0"
    "heap t2 (init_weights s0) = heap t1 (init_weights s0)"
    by simp_all
  from update_nets_growth [OF t2(1) assms(7,6)] t2(2)
  have "head_weights t2' = head_weights t2 @ heap t2 (init_weights s0)" by simp
  with s0(1) init_tensor [OF assms(1)] t1(2) t1'(5) t2(2,3) show ?thesis by simp
qed

lemma example_session_eq:
  "example_session =
     \<lparr>num_classes = 10, num_groups = 5, classes_per_group = 2,
      train_params = example_train_params, approach_params = example_approach,
      use_cosine = False, labels_split = [[0, 1], [2, 3], [4, 5], [6, 7], [8, 9]],
      net = \<lparr>backbone = (), fc = \<lparr>in_features = 2, weight = 0, bias = [0, 0], sigma = None\<rparr>\<rparr>,
      init_weights = 0, use_distillation = True, use_variation = False, use_exemplars = True,
      prev_net = None, ft_net = None, exemplars = Some [], K = Some 4,
      current_step = - 1, n_known_classes = 0,
      heap = (\<lambda>_. [])(0 := [[1, 2], [3, 4]]), next_ref = 1, random_state = 0\<rparr>"
  by (simp add: example_session_def IncrementalLearner_init_def py_floordiv_def new_head_def
      example_collaborators_def example_approach_def approach_params_icarl_def
      example_split example_train_params_def train_params_base_def upt_rec)

theorem update_nets_keeps_old_rows_witness:
  "\<exists>s'. update_nets [0, 0, 0, 0] (step (step example_session)) = Inr s'
     \<and> take 2 (head_weights s') = [[1, 2], [3, 4]]"
proof -
  have h: "head_weights (step (step example_session)) = [[1, 2], [3, 4]]"
    "0 < current_step (step (step example_session))"
    "0 \<le> n_known_classes (step (step example_session))"
    "\<not> use_cosine (step (step example_session))"
    by (simp_all add: example_session_eq step_def head_weights_def)
  from update_nets_keeps_old_rows [of "step (step example_session)" "[0, 0, 0, 0]"] h
  show ?thesis by (simp add: numeral_2_eq_2)
qed

lemma example_two_growths:
  "\<exists>t1. run example_world example_session [Step, Train example_loader, Step] = Inr t1
     \<and> 0 < current_step t1 \<and> head_weights t1 = [[2, 3], [4, 5]]
     \<and> heap t1 (init_weights example_session) = [[2, 3], [4, 5]]
     \<and> (\<exists>t1'. update_nets [0, 0, 0, 0] t1 = Inr t1'
          \<and> (\<exists>t2. run example_world t1' [Train example_loader, Step] = Inr t2
               \<and> 0 < current_step t2
               \<and> head_weights t2 = [[3, 4], [5, 6], [3, 4], [5, 6]]
               \<and> (\<exists>t2'. update_nets [0, 0, 0, 0, 0, 0] t2 = Inr t2')))"
  by (simp add: run_def example_session_eq step_def train_def train_batch_def loss_step_def
      train_signals_def call_net_def example_world_def example_loader_def py_range_def
      example_train_params_def update_nets_def save_prev_net_def grow_head_def prepare_ft_net_def
      deepcopy_def replace_fc_def new_head_def head_weights_def read_parameters_def
      write_parameters_def Let_def slice_from_def slice_to_def slice_bound_def)

theorem same_initialization_tensor_witness:
  "\<exists>t1 t1' t2 t2'.
     run example_world example_session [Step, Train example_loader, Step] = Inr t1
     \<and> update_nets [0, 0, 0, 0] t1 = Inr t1'
     \<and> run example_world t1' [Train example_loader, Step] = Inr t2
     \<and> update_nets [0, 0, 0, 0, 0, 0] t2 = Inr t2'
     \<and> kaiming_normal example_collaborators = [[1, 2], [3, 4]]
     \<and> head_weights t1' = [[2, 3], [4, 5], [2, 3], [4, 5]]
     \<and> head_weights t2' = [[3, 4], [5, 6], [3, 4], [5, 6], [2, 3], [4, 5]]"
proof -
  from example_two_growths obtain t1 t1' t2 t2' where
    r1: "run example_world example_session [Step, Train example_loader, Step] = Inr t1"
    and c1: "0 < current_step t1" and h1: "head_weights t1 = [[2, 3], [4, 5]]"
    and i1: "heap t1 (init_weights example_session) = [[2, 3], [4, 5]]"
    and u1: "update_nets [0, 0, 0, 0] t1 = Inr t1'"
    and r2: "run example_world t1' [Train example_loader, Step] = Inr t2"
    and c2: "0 < current_step t2"
    and h2: "head_weights t2 = [[3, 4], [5, 6], [3, 4], [5, 6]]"
    and u2: "update_nets [0, 0, 0, 0, 0, 0] t2 = Inr t2'"
    by blast
  have k: "kaiming_normal example_collaborators = [[1, 2], [3, 4]]"
    by (simp add: example_collaborators_def)
  note th = same_initialization_tensor [OF example_init r1 c1 u1 r2 c2 u2]
  from th have a: "head_weights t1' = head_weights t1 @ heap t1 (init_weights example_session)"
    and b: "head_weights t2' = head_weights t2 @ heap t2 (init_weights example_session)"
    and e: "heap t2 (init_weights example_session) = heap t1 (init_weights example_session)"
    by blast+
  have "head_weights t1' = [[2, 3], [4, 5], [2, 3], [4, 5]]"
    "head_weights t2' = [[3, 4], [5, 6], [3, 4], [5, 6], [2, 3], [4, 5]]"
    unfolding a b e h1 h2 i1 by simp_all
  with r1 u1 r2 u2 k show ?thesis by blast
qed

lemma slice_from_last_columns: "0 < n \<Longrightarrow> slice_from (- n) row = last_columns n row"
  by (simp add: slice_from_def slice_bound_def last_columns_def nat_diff_distrib')

lemma slice_to_known_columns: "0 < n \<Longrightarrow> slice_to (- n) row = known_columns n row"
  by (simp add: slice_to_def slice_bound_def known_columns_def nat_diff_distrib')


lemma init_cpg_nonneg:
  assumes "IncrementalLearner_init c nc ng seed ap tp = Inr s"
  shows "0 \<le> classes_per_group s"
  using assms unfolding IncrementalLearner_init_def bindE_Inr_iff key_Inr_iff py_floordiv_Inr_iff
  apply (elim exE conjE)
  apply (auto simp: new_head_def split: if_splits)
  done

lemma reachable_cpg_pos:
  assumes "IncrementalLearner_init c nc ng seed ap tp = Inr s0" "run w s0 calls = Inr s"
    "n_known_classes s \<noteq> 0"
  shows "0 < classes_per_group s"
proof -
  from init_fields [OF assms(1)] run_config [OF assms(2)] assms(3)
  have "classes_per_group s \<noteq> 0" "classes_per_group s = classes_per_group s0" by auto
  with init_cpg_nonneg [OF assms(1)] show ?thesis by simp
qed

lemma train_signals_cases:
  assumes "0 < classes_per_group s"
  shows
    "(0 < current_step s \<and> use_distillation s \<and> prev_net s = Some prev
        \<and> (use_variation s \<and> \<not> use_cosine s \<longrightarrow> ft_net s = Some ft) \<longrightarrow>
      train_signals w s images labels =
        Inr \<lparr>class_input =
               (if use_cosine s then fst (call_net w s (net s) images)
                else map (last_columns (classes_per_group s)) (fst (call_net w s (net s) images))),
             class_target =
               (if use_cosine s then labels
                else if use_variation s
                then map (last_columns (classes_per_group s)) (fst (call_net w s ft images))
                else map (last_columns (classes_per_group s)) labels),
             dist_input =
               Some (if use_cosine s then snd (call_net w s (net s) images)
                     else map (known_columns (classes_per_group s))
                            (fst (call_net w s (net s) images))),
             dist_target =
               Some (if use_cosine s then snd (call_net w s prev images)
                     else fst (call_net w s prev images))\<rparr>)
     \<and> (\<not> (0 < current_step s \<and> use_distillation s) \<longrightarrow>
      train_signals w s images labels =
        Inr \<lparr>class_input = fst (call_net w s (net s) images), class_target = labels,
             dist_input = None, dist_target = None\<rparr>)"
  using assms unfolding train_signals_def
  by (auto simp: Let_def split_beta slice_from_last_columns slice_to_known_columns)

section \<open>The signals of the training loop\<close>

lemma foldE_append: "foldE f s (xs @ ys) = bindE (foldE f s xs) (\<lambda>t. foldE f t ys)"
  by (induction xs arbitrary: s) (auto simp: bindE_def split: sum.splits)

lemma foldE_concat:
  "foldE (\<lambda>s x. foldE f s (g x)) s xs = foldE f s (concat (map g xs))"
proof (induction xs arbitrary: s)
  case Nil
  then show ?case by simp
next
  case (Cons x xs)
  show ?case
    by (cases "foldE f s (g x)") (simp_all add: foldE_append Cons.IH)
qed

lemma train_batches_trained:
  "foldE (train_batch w r) s bs = Inr t \<Longrightarrow> net_trained s t"
  by (erule foldE_rel [rotated 3])
     (auto intro: train_batch_trained net_trained_refl net_trained_trans)

lemma train_as_fold:
  assumes "n_known_classes s \<noteq> 0"
    and "0 < current_step s \<and> use_distillation s \<longrightarrow>
           prev_net s \<noteq> None \<and> (use_variation s \<longrightarrow> ft_net s \<noteq> None)"
  shows "train w dataloader s
     = foldE (train_batch w (real_of_int (classes_per_group s) / real_of_int (n_known_classes s)))
         s (concat (map dataloader (py_range (NUM_EPOCHS (train_params s)))))"
  using assms unfolding train_def by (auto simp: Let_def foldE_concat)

text \<open>
  C2. Let \<open>s\<close> be a session reached from construction on which \<open>train\<close> passes
  its division (\<open>n_known_classes\<close> is not 0), take any batch of any epoch of the
  loader, and let \<open>t\<close> be the session that the batches before it have left. Then
  \<open>train\<close> is that batch processed on \<open>t\<close>, followed by the later batches, and
  processing the batch hands the loss and the optimizer the class ratio and these
  signals. Past the first step with distillation enabled (the previous net and, for
  the variation, the auxiliary net in place, as \<open>train\<close> requires before its loop):
  with a linear head the classification input is the output restricted to its last
  \<open>n_new_classes\<close> columns, the classification target is the auxiliary net's output
  restricted to those columns when the variation is enabled and else the one-hot labels
  restricted to them, the distillation input is the output restricted to the columns
  known before, and the distillation target is the previous net's full output; with a
  cosine head the classification input and target are the full output and the full
  one-hot labels and the distillation input and target are the features of the current
  and of the previous net. At the first step or with distillation disabled the
  classification input and target are the full output and labels and the distillation
  input and target are absent.
\<close>

theorem train_signals_branches:
  assumes "IncrementalLearner_init c nc ng seed ap tp = Inr s0"
    and "run w s0 calls = Inr s" and "n_known_classes s \<noteq> 0"
    and "class_ratio = real_of_int (classes_per_group s) / real_of_int (n_known_classes s)"
    and "concat (map dataloader (py_range (NUM_EPOCHS (train_params s))))
           = earlier @ (images, labels) # later"
    and "foldE (train_batch w class_ratio) s earlier = Inr t"
  shows
    "(0 < current_step s \<and> use_distillation s \<and> prev_net s = Some prev
        \<and> (use_variation s \<longrightarrow> ft_net s = Some ft) \<longrightarrow>
      train w dataloader s
        = bindE (train_batch w class_ratio t (images, labels))
            (\<lambda>t'. foldE (train_batch w class_ratio) t' later)
      \<and> train_batch w class_ratio t (images, labels) =
        Inr (loss_step w class_ratio t
          \<lparr>class_input =
             (if use_cosine s then fst (call_net w t (net t) images)
              else map (last_columns (classes_per_group s)) (fst (call_net w t (net t) images))),
           class_target =
             (if use_cosine s
              then transform_labels_onehot w labels (n_known_classes s)
              else if use_variation s
              then map (last_columns (classes_per_group s)) (fst (call_net w t ft images))
              else map (last_columns (classes_per_group s))
                     (transform_labels_onehot w labels (n_known_classes s))),
           dist_input =
             Some (if use_cosine s then snd (call_net w t (net t) images)
                   else map (known_columns (classes_per_group s))
                          (fst (call_net w t (net t) images))),
           dist_target =
             Some (if use_cosine s then snd (call_net w t prev images)
                   else fst (call_net w t prev images))\<rparr>))
     \<and> (\<not> (0 < current_step s \<and> use_distillation s) \<longrightarrow>
      train w dataloader s
        = bindE (train_batch w class_ratio t (images, labels))
            (\<lambda>t'. foldE (train_batch w class_ratio) t' later)
      \<and> train_batch w class_ratio t (images, labels) =
        Inr (loss_step w class_ratio t
          \<lparr>class_input = fst (call_net w t (net t) images),
           class_target = transform_labels_onehot w labels (n_known_classes s),
           dist_input = None, dist_target = None\<rparr>))"
proof -
  from train_batches_trained [OF assms(6)] have nt: "net_trained s t" .
  then have same: "classes_per_group t = classes_per_group s" "use_cosine t = use_cosine s"
    "use_variation t = use_variation s" "use_distillation t = use_distillation s"
    "current_step t = current_step s" "prev_net t = prev_net s" "ft_net t = ft_net s"
    "n_known_classes t = n_known_classes s"
    by (auto simp: net_trained_def)
  from reachable_cpg_pos [OF assms(1-3)] same(1) have pos: "0 < classes_per_group t" by simp
  have fold: "train w dataloader s
      = bindE (train_batch w class_ratio t (images, labels))
            (\<lambda>t'. foldE (train_batch w class_ratio) t' later)"
    if "0 < current_step s \<and> use_distillation s \<longrightarrow>
           prev_net s \<noteq> None \<and> (use_variation s \<longrightarrow> ft_net s \<noteq> None)"
    using train_as_fold [OF assms(3) that, of w dataloader] assms(4,5,6)
    by (simp add: foldE_append)
  note sig = train_signals_cases [OF pos, of prev ft w images
      "transform_labels_onehot w labels (n_known_classes s)"]
  show ?thesis
  proof (intro conjI impI)
    assume a: "0 < current_step s \<and> use_distillation s \<and> prev_net s = Some prev
        \<and> (use_variation s \<longrightarrow> ft_net s = Some ft)"
    then show "train w dataloader s
        = bindE (train_batch w class_ratio t (images, labels))
            (\<lambda>t'. foldE (train_batch w class_ratio) t' later)"
      by (intro fold) simp
  next
    assume a: "0 < current_step s \<and> use_distillation s \<and> prev_net s = Some prev
        \<and> (use_variation s \<longrightarrow> ft_net s = Some ft)"
    with sig same show "train_batch w class_ratio t (images, labels) =
        Inr (loss_step w class_ratio t
          \<lparr>class_input =
             (if use_cosine s then fst (call_net w t (net t) images)
              else map (last_columns (classes_per_group s)) (fst (call_net w t (net t) images))),
           class_target =
             (if use_cosine s
              then transform_labels_onehot w labels (n_known_classes s)
              else if use_variation s
              then map (last_columns (classes_per_group s)) (fst (call_net w t ft images))
              else map (last_columns (classes_per_group s))
                     (transform_labels_onehot w labels (n_known_classes s))),
           dist_input =
             Some (if use_cosine s then snd (call_net w t (net t) images)
                   else map (known_columns (classes_per_group s))
                          (fst (call_net w t (net t) images))),
           dist_target =
             Some (if use_cosine s then snd (call_net w t prev images)
                   else fst (call_net w t prev images))\<rparr>)"
      by (simp add: train_batch_def)
  next
    assume a: "\<not> (0 < current_step s \<and> use_distillation s)"
    then show "train w dataloader s
        = bindE (train_batch w class_ratio t (images, labels))
            (\<lambda>t'. foldE (train_batch w class_ratio) t' later)"
      by (intro fold) blast
  next
    assume a: "\<not> (0 < current_step s \<and> use_distillation s)"
    with sig same show "train_batch w class_ratio t (images, labels) =
        Inr (loss_step w class_ratio t
          \<lparr>class_input = fst (call_net w t (net t) images),
           class_target = transform_labels_onehot w labels (n_known_classes s),
           dist_input = None, dist_target = None\<rparr>)"
      by (simp add: train_batch_def)
  qed
qed

lemma call_net_ft [simp]: "call_net w (s\<lparr>ft_net := f\<rparr>) n images = call_net w s n images"
  by (simp add: call_net_def)

lemma train_signals_ft:
  "\<not> use_variation s \<Longrightarrow>
     train_signals w (s\<lparr>ft_net := f\<rparr>) images labels = train_signals w s images labels"
  unfolding train_signals_def
  by (simp add: Let_def split_beta cong: if_cong option.case_cong)

lemma train_batch_ft:
  "\<not> use_variation s \<Longrightarrow>
     train_batch w r (s\<lparr>ft_net := f\<rparr>) b = map_sum id (\<lambda>t. t\<lparr>ft_net := f\<rparr>) (train_batch w r s b)"
  unfolding train_batch_def loss_step_def
  by (cases "train_signals w s (fst b) (transform_labels_onehot w (snd b) (n_known_classes s))")
     (simp_all add: train_signals_ft read_parameters_def Let_def)

lemma foldE_commute:
  assumes c: "\<And>s x. P s \<Longrightarrow> F (g s) x = map_sum id g (F s x)"
    and p: "\<And>s x s'. P s \<Longrightarrow> F s x = Inr s' \<Longrightarrow> P s'"
  shows "P s \<Longrightarrow> foldE F (g s) xs = map_sum id g (foldE F s xs)"
proof (induction xs arbitrary: s)
  case Nil
  then show ?case by simp
next
  case (Cons x xs)
  show ?case
  proof (cases "F s x")
    case (Inl e)
    with c [OF Cons.prems, of x] show ?thesis by simp
  next
    case (Inr s')
    with c [OF Cons.prems, of x] p [OF Cons.prems Inr] Cons.IH [of s'] show ?thesis by simp
  qed
qed

lemma foldE_preserves:
  assumes p: "\<And>s x s'. P s \<Longrightarrow> F s x = Inr s' \<Longrightarrow> P s'"
  shows "P s \<Longrightarrow> foldE F s xs = Inr s' \<Longrightarrow> P s'"
  by (induction xs arbitrary: s) (auto simp: bindE_Inr_iff dest: p)

lemma train_batch_variation:
  "\<not> use_variation s \<Longrightarrow> train_batch w r s b = Inr s' \<Longrightarrow> \<not> use_variation s'"
  by (auto dest!: train_batch_trained simp: net_trained_def)

lemma train_ft_independent:
  assumes "\<not> use_variation s"
  shows "train w dl (s\<lparr>ft_net := f\<rparr>) = map_sum id (\<lambda>t. t\<lparr>ft_net := f\<rparr>) (train w dl s)"
proof -
  have inner: "foldE (train_batch w r) (t\<lparr>ft_net := f\<rparr>) bs
      = map_sum id (\<lambda>t. t\<lparr>ft_net := f\<rparr>) (foldE (train_batch w r) t bs)"
    if "\<not> use_variation t" for t r bs
    using that
    by (rule foldE_commute [where P = "\<lambda>s. \<not> use_variation s", rotated 2])
       (simp_all add: train_batch_ft train_batch_variation)
  have pres: "\<not> use_variation t'"
    if "\<not> use_variation t" "foldE (train_batch w r) t bs = Inr t'" for t t' r bs
    using that
    by (rule foldE_preserves [where P = "\<lambda>s. \<not> use_variation s", rotated])
       (simp add: train_batch_variation)
  have outer: "foldE (\<lambda>s epoch. foldE (train_batch w r) s (dl epoch)) (s\<lparr>ft_net := f\<rparr>) es
      = map_sum id (\<lambda>t. t\<lparr>ft_net := f\<rparr>)
          (foldE (\<lambda>s epoch. foldE (train_batch w r) s (dl epoch)) s es)" for r es
    using assms
    by (rule foldE_commute [where P = "\<lambda>s. \<not> use_variation s", rotated 2])
       (simp_all add: inner pres)
  show ?thesis using assms unfolding train_def by (simp add: outer Let_def)
qed

section \<open>The variation needs distillation\<close>

text \<open>
  C10. In every session reached from construction, the variation flag is the
  conjunction of the two configuration flags. When the distillation flag of the
  configuration is false, whatever its variation flag: \<open>train_ft\<close> returns the
  session unchanged, there is no auxiliary net, and neither \<open>train\<close> nor the
  signals of a batch depend on what the field \<open>ft_net\<close> holds.
\<close>

theorem variation_requires_distillation:
  assumes "IncrementalLearner_init c nc ng seed ap tp = Inr s0" and "run w s0 calls = Inr s"
  shows "use_variation s = (ap_use_distillation ap = Some True \<and> ap_use_variation ap = Some True)
     \<and> (ap_use_distillation ap = Some False \<longrightarrow>
           \<not> use_variation s \<and> ft_net s = None \<and> train_ft w dl s = Inr s
           \<and> (\<forall>f. train w dl' (s\<lparr>ft_net := f\<rparr>)
                  = map_sum id (\<lambda>t. t\<lparr>ft_net := f\<rparr>) (train w dl' s))
           \<and> (\<forall>f images labels.
                 train_signals w (s\<lparr>ft_net := f\<rparr>) images labels
                   = train_signals w s images labels))"
proof -
  from init_fields [OF assms(1)] run_config [OF assms(2)]
  have v: "use_variation s
      = (ap_use_distillation ap = Some True \<and> ap_use_variation ap = Some True)"
    and f: "\<not> use_variation s \<longrightarrow> ft_net s = None"
    by auto
  show ?thesis using v f
    by (auto simp: train_ft_def train_ft_independent train_signals_ft)
qed

lemma example_run_step1:
  "run example_world example_session
     [Step, Train example_loader, Step, Update_nets [0, 0, 0, 0]] = Inr example_step1"
  by (simp add: run_def example_step1_def example_session_eq step_def train_def train_batch_def loss_step_def
      train_signals_def call_net_def example_world_def example_loader_def py_range_def
      example_train_params_def update_nets_def save_prev_net_def grow_head_def prepare_ft_net_def
      deepcopy_def replace_fc_def new_head_def read_parameters_def
      write_parameters_def Let_def numeral_2_eq_2)

lemma bindE_return [simp]: "bindE m Inr = m"
  by (cases m) simp_all

theorem train_signals_branches_witness:
  "train_batch example_world (1 / 2) example_step1 ([1, 2], [2, 3])
     = Inr (loss_step example_world (1 / 2) example_step1
         \<lparr>class_input = [[5, 9], [10, 18]], class_target = [[1, 0], [0, 1]],
          dist_input = Some [[5, 9], [10, 18]], dist_target = Some [[5, 9], [10, 18]]\<rparr>)
   \<and> train example_world example_loader_new example_step1
     = train_batch example_world (1 / 2) example_step1 ([1, 2], [2, 3])
   \<and> train_batch example_world 1 (step example_session) ([1, 2], [0, 1])
     = Inr (loss_step example_world 1 (step example_session)
         \<lparr>class_input = [[3, 7], [6, 14]], class_target = [[1, 0], [0, 1]],
          dist_input = None, dist_target = None\<rparr>)
   \<and> train example_world example_loader (step example_session)
     = train_batch example_world 1 (step example_session) ([1, 2], [0, 1])"
proof -
  let ?prev = "\<lparr>backbone = (), fc = \<lparr>in_features = 2, weight = 1, bias = [0, 0], sigma = None\<rparr>\<rparr>"
  have a: "n_known_classes example_step1 \<noteq> 0"
    "1 / 2 = real_of_int (classes_per_group example_step1)
               / real_of_int (n_known_classes example_step1)"
    "concat (map example_loader_new (py_range (NUM_EPOCHS (train_params example_step1))))
       = [] @ ([1, 2], [2, 3]) # []"
    "foldE (train_batch example_world (1 / 2)) example_step1 [] = Inr example_step1"
    by (simp_all add: example_step1_def example_session_eq example_train_params_def
        example_loader_new_def py_range_def)
  have f: "0 < current_step example_step1" "use_distillation example_step1"
    "prev_net example_step1 = Some ?prev"
    "\<not> use_variation example_step1" "\<not> use_cosine example_step1"
    "classes_per_group example_step1 = 2" "n_known_classes example_step1 = 4"
    by (simp_all add: example_step1_def example_session_eq)
  have r0: "run example_world example_session [Step] = Inr (step example_session)"
    by (simp add: run_def)
  have a0: "n_known_classes (step example_session) \<noteq> 0"
    "1 = real_of_int (classes_per_group (step example_session))
               / real_of_int (n_known_classes (step example_session))"
    "concat (map example_loader (py_range (NUM_EPOCHS (train_params (step example_session)))))
       = [] @ ([1, 2], [0, 1]) # []"
    "foldE (train_batch example_world 1) (step example_session) [] = Inr (step example_session)"
    "\<not> 0 < current_step (step example_session)" "n_known_classes (step example_session) = 2"
    by (simp_all add: step_def example_session_eq example_train_params_def
        example_loader_def py_range_def)
  note t1 = train_signals_branches [OF example_init example_run_step1 a, of ?prev
      "net example_session"]
  note t0 = train_signals_branches [OF example_init r0 a0(1-4), of "net example_session"
      "net example_session"]
  have 1: "train_batch example_world (1 / 2) example_step1 ([1, 2], [2, 3])
     = Inr (loss_step example_world (1 / 2) example_step1
         \<lparr>class_input = [[5, 9], [10, 18]], class_target = [[1, 0], [0, 1]],
          dist_input = Some [[5, 9], [10, 18]], dist_target = Some [[5, 9], [10, 18]]\<rparr>)"
    and 2: "train example_world example_loader_new example_step1
     = train_batch example_world (1 / 2) example_step1 ([1, 2], [2, 3])"
    using t1 f
    by (simp_all add: call_net_def example_world_def example_step1_def example_session_eq
        last_columns_def known_columns_def upt_rec)
  have 3: "train_batch example_world 1 (step example_session) ([1, 2], [0, 1])
     = Inr (loss_step example_world 1 (step example_session)
         \<lparr>class_input = [[3, 7], [6, 14]], class_target = [[1, 0], [0, 1]],
          dist_input = None, dist_target = None\<rparr>)"
    and 4: "train example_world example_loader (step example_session)
     = train_batch example_world 1 (step example_session) ([1, 2], [0, 1])"
    using t0 a0(5,6)
    by (simp_all add: call_net_def example_world_def step_def example_session_eq upt_rec)
  from 1 2 3 4 show ?thesis by blast
qed

lemma example_init_no_distillation:
  "IncrementalLearner_init example_collaborators 10 5 0 example_approach_no_distillation
     example_train_params = Inr example_session_no_distillation"
  by (simp add: example_session_no_distillation_def IncrementalLearner_init_def py_floordiv_def
      new_head_def example_collaborators_def example_approach_no_distillation_def
      approach_params_lwf_def example_split example_train_params_def train_params_base_def)

theorem variation_requires_distillation_witness:
  "ap_use_variation example_approach_no_distillation = Some True
   \<and> \<not> use_variation (step example_session_no_distillation)
   \<and> train_ft example_world example_loader (step example_session_no_distillation)
       = Inr (step example_session_no_distillation)"
proof -
  have r: "run example_world example_session_no_distillation [Step]
      = Inr (step example_session_no_distillation)"
    by (simp add: run_def)
  have d: "ap_use_distillation example_approach_no_distillation = Some False"
    "ap_use_variation example_approach_no_distillation = Some True"
    by (simp_all add: example_approach_no_distillation_def approach_params_lwf_def)
  from variation_requires_distillation [OF example_init_no_distillation r,
      of example_loader example_loader] d
  show ?thesis by simp
qed

subsection \<open>Exemplar sets and their sizes\<close>
















section \<open>The capacity of the exemplar memory\<close>















section \<open>Herding selection\<close>

lemma sum_squares_nonneg: "0 \<le> sum_list (map (\<lambda>x. x\<^sup>2) (v :: vec))"
  by (induction v) auto

lemma sum_squares_scaled:
  "sum_list (map (\<lambda>x. x\<^sup>2) (map (\<lambda>a. a / c) (v :: vec))) = sum_list (map (\<lambda>x. x\<^sup>2) v) / c\<^sup>2"
  by (induction v) (auto simp: power_divide add_divide_distrib)

lemma F_normalize_row:
  assumes "v' \<in> set (F_normalize x)"
  shows "sum_list (map (\<lambda>a. a\<^sup>2) v') \<le> 1"
proof -
  from assms obtain v where v': "v' = map (\<lambda>a. a / max (l2_norm v) (1 / 10 ^ 12)) v"
    by (auto simp: F_normalize_def)
  let ?S = "sum_list (map (\<lambda>x. x\<^sup>2) v)"
  let ?c = "max (l2_norm v) (1 / 10 ^ 12)"
  have c: "0 < ?c" "sqrt ?S \<le> ?c" by (simp_all add: l2_norm_def less_max_iff_disj)
  from c(2) have "(sqrt ?S)\<^sup>2 \<le> ?c\<^sup>2"
    by (intro power_mono) (simp_all add: sum_squares_nonneg)
  then have "?S \<le> ?c\<^sup>2" by (simp add: sum_squares_nonneg)
  then have "?S / ?c\<^sup>2 \<le> 1" using c(1) by (simp add: divide_le_eq_1)
  then show ?thesis unfolding v' sum_squares_scaled .
qed

lemma unit_norm_bound:
  "sum_list (map (\<lambda>a. a\<^sup>2) (map (\<lambda>x. x / l2_norm v) v)) \<le> 1"
  unfolding sum_squares_scaled
  by (simp add: l2_norm_def sum_squares_nonneg divide_le_eq_1)

lemma distance_bound:
  "sum_list (map2 (\<lambda>a b. (a - b)\<^sup>2) u v)
     \<le> 2 * sum_list (map (\<lambda>x. x\<^sup>2) u) + 2 * sum_list (map (\<lambda>x. x\<^sup>2) (v :: vec))"
proof (induction u arbitrary: v)
  case Nil
  then show ?case by (simp add: sum_squares_nonneg)
next
  case (Cons a u)
  show ?case
  proof (cases v)
    case Nil
    have "0 \<le> a\<^sup>2 + sum_list (map (\<lambda>x. x\<^sup>2) u)"
      by (intro add_nonneg_nonneg sum_squares_nonneg) simp
    with Nil show ?thesis by simp
  next
    case (Cons b v')
    have "(a - b)\<^sup>2 \<le> 2 * a\<^sup>2 + 2 * b\<^sup>2"
    proof -
      have "0 \<le> (a + b)\<^sup>2" by simp
      then show ?thesis by (simp add: power2_sum power2_diff)
    qed
    with Cons.IH [of v'] Cons show ?thesis by simp
  qed
qed

lemma sentinel_fold:
  "\<forall>i \<in> set taken. i < length d \<Longrightarrow>
     \<exists>d'. foldE (set_item c) d taken = Inr d' \<and> length d' = length d
        \<and> (\<forall>j < length d. d' ! j = (if j \<in> set taken then c else d ! j))"
proof (induction taken arbitrary: d)
  case Nil
  then show ?case by simp
next
  case (Cons i taken)
  then have i: "i < length d" by simp
  from Cons.prems have "\<forall>j \<in> set taken. j < length (d[i := c])" by simp
  from Cons.IH [OF this] obtain d' where
    d': "foldE (set_item c) (d[i := c]) taken = Inr d'" "length d' = length d"
      "\<forall>j < length d. d' ! j = (if j \<in> set taken then c else d[i := c] ! j)"
    by auto
  have "foldE (set_item c) d (i # taken) = Inr d'" using i d'(1) by (simp add: set_item_def)
  moreover have "\<forall>j < length d. d' ! j = (if j \<in> set (i # taken) then c else d ! j)"
    using d'(3) i by (auto simp: nth_list_update)
  ultimately show ?case using d'(2) by blast
qed

lemma argmin_range:
  assumes "xs \<noteq> []"
  shows "\<exists>i. argmin xs = Inr i \<and> i < length xs \<and> (\<forall>x \<in> set xs. xs ! i \<le> x)"
proof -
  let ?m = "Min (set xs)"
  let ?i = "length (takeWhile (\<lambda>x. x \<noteq> ?m) xs)"
  have m: "?m \<in> set xs" using assms by (intro Min_in) simp_all
  then have "takeWhile (\<lambda>x. x \<noteq> ?m) xs \<noteq> xs"
    by (auto simp: takeWhile_eq_all_conv)
  then have lt: "?i < length xs"
    using length_takeWhile_le [of "\<lambda>x. x \<noteq> ?m" xs]
    by (metis le_neq_implies_less takeWhile_eq_take take_all_iff linorder_not_less)
  from nth_length_takeWhile [OF lt] have "xs ! ?i = ?m" by simp
  then have "\<forall>x \<in> set xs. xs ! ?i \<le> x" by simp
  with lt assms show ?thesis by (simp add: argmin_def)
qed

lemma get_closest_untaken:
  assumes lm: "sum_list (map (\<lambda>a. a\<^sup>2) label_mean) \<le> 1"
    and t: "\<forall>i \<in> set idx_taken. i < length features"
    and j: "j < length features" "j \<notin> set idx_taken"
  shows "\<exists>i. get_closest_exemplar_idx label_mean features idx_taken = Inr i
           \<and> i < length features \<and> i \<notin> set idx_taken"
proof -
  let ?fs = "F_normalize features"
  let ?d = "map (\<lambda>f. sum_list (map2 (\<lambda>a b. (a - b)\<^sup>2) label_mean f)) ?fs"
  have n: "length ?d = length features" by (simp add: F_normalize_def)
  have small: "?d ! i \<le> 4" if "i < length features" for i
  proof -
    from that have "?fs ! i \<in> set ?fs" by (simp add: F_normalize_def)
    from F_normalize_row [OF this] distance_bound [of label_mean "?fs ! i"] lm
    have "sum_list (map2 (\<lambda>a b. (a - b)\<^sup>2) label_mean (?fs ! i)) \<le> 4" by simp
    with that show ?thesis by (simp add: F_normalize_def)
  qed
  from sentinel_fold [of idx_taken ?d 100000] t n obtain d' where
    d': "foldE (set_item 100000) ?d idx_taken = Inr d'" "length d' = length features"
      "\<forall>i < length features. d' ! i = (if i \<in> set idx_taken then 100000 else ?d ! i)"
    by auto
  from j d'(2) have "d' \<noteq> []" by auto
  from argmin_range [OF this] obtain i where
    i: "argmin d' = Inr i" "i < length d'" "\<forall>x \<in> set d'. d' ! i \<le> x" by blast
  have "d' ! j \<le> 4" using d'(3) j small [of j] by simp
  moreover have "d' ! j \<in> set d'" using j(1) d'(2) by simp
  ultimately have "d' ! i \<le> 4" using i(3) by force
  then have "i \<notin> set idx_taken" using d'(3) i(2) d'(2) by auto
  moreover have "get_closest_exemplar_idx label_mean features idx_taken = Inr i"
    using d'(1) i(1) by (simp add: get_closest_exemplar_idx_def Let_def)
  ultimately show ?thesis using i(2) d'(2) by simp
qed

lemma untaken_exists:
  assumes "distinct taken" "\<forall>i \<in> set taken. i < n" "length taken < n"
  shows "\<exists>j < n. j \<notin> set taken"
proof (rule ccontr)
  assume "\<not> ?thesis"
  then have "{..<n} \<subseteq> set taken" by auto
  then have "card {..<n} \<le> card (set taken)" by (intro card_mono) simp_all
  with assms(1,3) show False by (simp add: distinct_card)
qed

lemma herding_distinct:
  assumes lm: "sum_list (map (\<lambda>a. a\<^sup>2) label_mean) \<le> 1"
  shows "distinct taken \<Longrightarrow> \<forall>i \<in> set taken. i < length features
     \<Longrightarrow> length taken + k \<le> length features
     \<Longrightarrow> \<exists>idx. herding k label_mean features em taken = Inr idx \<and> distinct idx
           \<and> (\<forall>i \<in> set idx. i < length features) \<and> length idx = length taken + k"
proof (induction k arbitrary: em taken)
  case 0
  then show ?case by simp
next
  case (Suc k)
  let ?fs = "map (\<lambda>f. map2 (+) f em) features"
  from Suc.prems have "length taken < length features" by simp
  from untaken_exists [OF Suc.prems(1,2) this] obtain j where
    j: "j < length features" "j \<notin> set taken" by blast
  from get_closest_untaken [OF lm, of taken ?fs j] Suc.prems(2) j obtain i where
    i: "get_closest_exemplar_idx label_mean ?fs taken = Inr i" "i < length features"
      "i \<notin> set taken"
    by auto
  have "distinct (taken @ [i])" "\<forall>x \<in> set (taken @ [i]). x < length features"
    "length (taken @ [i]) + k \<le> length features"
    using Suc.prems i(2,3) by auto
  from Suc.IH [OF this, of "map2 (+) em (features ! i)"] i(1) show ?case by auto
qed

lemma chunks_concat: "0 < n \<Longrightarrow> concat (chunks n xs) = xs"
proof (induction n xs rule: chunks.induct)
  case (1 n xs)
  then show ?case by (subst chunks.simps) auto
qed

lemma chunks_Nil_iff: "0 < n \<Longrightarrow> chunks n xs = [] \<longleftrightarrow> xs = []"
  by (subst chunks.simps) auto

lemma features_step_value:
  "features_step w s b (mean, bf, tot)
     = (map (\<lambda>x. x + torch_sum (class_features w s b)) mean, bf @ [class_features w s b],
        tot + length (class_features w s b))"
  by (simp add: features_step_def Let_def)

lemma features_fold:
  "fold (features_step w s) dl (mean, bf, tot)
     = (map (\<lambda>x. x + sum_list (map (\<lambda>b. torch_sum (class_features w s b)) dl)) mean,
        bf @ map (class_features w s) dl,
        tot + sum_list (map (\<lambda>b. length (class_features w s b)) dl))"
proof (induction dl arbitrary: mean bf tot)
  case Nil
  then show ?case by simp
next
  case (Cons b dl)
  show ?case
    by (simp add: features_step_value Cons.IH o_def add.assoc)
qed

lemma get_features_representation_value:
  assumes "dl \<noteq> []"
  shows "\<exists>label_mean.
     get_features_representation w s dl
       = Inr (F_normalize (concat (map (class_features w s) dl)), label_mean)
     \<and> sum_list (map (\<lambda>a. a\<^sup>2) label_mean) \<le> 1"
proof -
  let ?mean = "map (\<lambda>x. x / real (0 + sum_list (map (\<lambda>b. length (class_features w s b)) dl)))
      (map (\<lambda>x. x + sum_list (map (\<lambda>b. torch_sum (class_features w s b)) dl))
         (replicate (in_features (fc (net s))) 0))"
  have "get_features_representation w s dl
      = Inr (F_normalize (concat (map (class_features w s) dl)),
             map (\<lambda>x. x / l2_norm ?mean) ?mean)"
    unfolding get_features_representation_def features_fold using assms
    by (simp add: Let_def)
  with unit_norm_bound [of ?mean] show ?thesis by blast
qed

lemma class_rows:
  assumes "features_shaped w s"
  shows "length (concat (map (class_features w s) bs)) = length (concat bs)"
proof -
  have "length (class_features w s b) = length b" for b
    using assms by (simp add: features_shaped_def class_features_def)
  then show ?thesis by (induction bs) simp_all
qed

text \<open>
  C7. For a new class with at least one sample, under the herding policy, a positive
  batch size and a quota \<open>m\<close> that is not negative, on a net that returns one
  feature row of the declared width per image, and where the entries of the class
  features do not sum to 0 (else the class mean is 0 divided by 0, a NaN, which the
  reals do not model): the selection returns, the indices \<open>idx_taken\<close> it has chosen
  are pairwise distinct and index samples of the class, and there are
  \<open>min m (class sample count)\<close> of them.
\<close>

theorem herding_selects_distinct:
  assumes "exemplars_selection (approach_params s) = Some ''herding''"
    and "0 < BATCH_SIZE (train_params s)" and "0 \<le> m" and "SubCIFAR w label \<noteq> []"
    and "features_shaped w s" and "class_feature_total w s label \<noteq> 0"
  shows "\<exists>idx_taken. select_idx w s m g label = Inr (idx_taken, g) \<and> distinct idx_taken
     \<and> int (length idx_taken) = min m (int (length (SubCIFAR w label)))
     \<and> (\<forall>i \<in> set idx_taken. i < length (SubCIFAR w label))"
proof -
  let ?ds = "SubCIFAR w label"
  let ?dl = "chunks (nat (BATCH_SIZE (train_params s))) ?ds"
  let ?fs = "F_normalize (concat (map (class_features w s) ?dl))"
  have b: "0 < nat (BATCH_SIZE (train_params s))" using assms(2) by simp
  have dl: "DataLoader (BATCH_SIZE (train_params s)) ?ds = Inr ?dl"
    using assms(2) by (simp add: DataLoader_def)
  have "?dl \<noteq> []" using chunks_Nil_iff [OF b, of ?ds] assms(4) by simp
  from get_features_representation_value [OF this, of w s] obtain label_mean where
    f: "get_features_representation w s ?dl = Inr (?fs, label_mean)"
    and lm: "sum_list (map (\<lambda>a. a\<^sup>2) label_mean) \<le> 1" by blast
  have n: "length ?fs = length ?ds"
    using class_rows [OF assms(5), of ?dl] chunks_concat [OF b, of ?ds]
    by (simp add: F_normalize_def)
  let ?k = "nat (min m (int (length ?ds)))"
  have "length ([] :: nat list) + ?k \<le> length ?fs" using n by simp
  from herding_distinct [OF lm _ _ this, of "replicate (in_features (fc (net s))) 0"]
  obtain idx where
    h: "herding ?k label_mean ?fs (replicate (in_features (fc (net s))) 0) [] = Inr idx"
      "distinct idx" "\<forall>i \<in> set idx. i < length ?fs" "length idx = ?k"
    by auto
  have "select_idx w s m g label = Inr (idx, g)"
    unfolding select_idx_def using dl f h(1) assms(1) by (simp add: Let_def)
  moreover have "int (length idx) = min m (int (length ?ds))" using h(4) assms(3) by simp
  ultimately show ?thesis using h(2,3) n by auto
qed

lemma chunks_2_3: "chunks 2 [a, b, c] = [[a, b], [c]]"
  by (simp add: chunks.simps [of 2] chunks.simps [of _ "[]"])

lemma example_class_features:
  "class_features example_world s batch = map (\<lambda>i. [real i, 1]) (map fst batch)"
  by (simp add: class_features_def call_net_def example_world_def)

lemma example_SubCIFAR: "SubCIFAR example_world l = [(1, l), (2, l), (3, l)]"
  by (simp add: example_world_def)

theorem herding_selects_distinct_witness:
  "\<exists>idx_taken. select_idx example_world (step example_session) 2 0 0 = Inr (idx_taken, 0)
      \<and> distinct idx_taken \<and> length idx_taken = 2"
proof -
  let ?s = "step example_session"
  have 1: "exemplars_selection (approach_params ?s) = Some ''herding''"
    by (simp add: step_def example_session_eq example_approach_def)
  have 2: "0 < BATCH_SIZE (train_params ?s)"
    by (simp add: step_def example_session_eq example_train_params_def)
  have 3: "SubCIFAR example_world 0 \<noteq> []" by (simp add: example_world_def)
  have 4: "features_shaped example_world ?s"
    by (simp add: features_shaped_def call_net_def example_world_def step_def example_session_eq)
  have 5: "class_feature_total example_world ?s 0 \<noteq> 0"
    by (simp add: class_feature_total_def example_class_features torch_sum_def step_def
        example_session_eq example_train_params_def example_SubCIFAR chunks_2_3)
  have 6: "length (SubCIFAR example_world 0) = 3" by (simp add: example_world_def)
  from herding_selects_distinct [OF 1 2 _ 3 4 5, of 2 0] 6 show ?thesis by auto
qed

section \<open>The class mean\<close>

lemma class_mean_constant:
  assumes "get_features_representation w s dl = Inr (fs, label_mean)"
  shows "\<exists>c. label_mean = replicate (in_features (fc (net s))) c"
  using assms unfolding get_features_representation_def features_fold
  by (auto simp: Let_def split: if_splits)

lemma example_class_mean:
  "get_features_representation example_world (step example_session)
       [[(1, 0), (2, 0)], [(3, 0)]]
     = Inr (F_normalize [[1, 1], [2, 1], [3, 1]], [3 / sqrt 18, 3 / sqrt 18])"
  by (simp add: get_features_representation_def features_step_def example_class_features
      torch_sum_def step_def example_session_eq Let_def l2_norm_def numeral_2_eq_2)

text \<open>
  C1 fails on the code. \<^verbatim>\<open>mean += torch.sum(features)\<close> adds the sum of all entries
  of a batch, a scalar, to every component of \<open>mean\<close>, so the class mean that
  herding gets has all its components equal (\<open>class_mean_constant\<close>). For a class
  of three samples with features \<open>(1, 1)\<close>, \<open>(2, 1)\<close>, \<open>(3, 1)\<close>, loaded in batches
  of two, the code returns \<open>(3, 3)\<close> divided by its norm, and the normalized mean of
  the feature vectors is \<open>(2, 1)\<close> divided by its norm.
\<close>

theorem class_mean_sums_all_entries:
  "DataLoader 2 (SubCIFAR example_world 0) = Inr [[(1, 0), (2, 0)], [(3, 0)]]
   \<and> concat (map (class_features example_world (step example_session))
               [[(1, 0), (2, 0)], [(3, 0)]]) = [[1, 1], [2, 1], [3, 1]]
   \<and> map_sum id snd (get_features_representation example_world (step example_session)
         [[(1, 0), (2, 0)], [(3, 0)]]) = Inr [3 / sqrt 18, 3 / sqrt 18]
   \<and> unit_vector (columnwise_mean [[1, 1], [2, 1], [3, 1]]) = [2 / sqrt 5, 1 / sqrt 5]
   \<and> [3 / sqrt 18, 3 / sqrt 18] \<noteq> [2 / sqrt 5, 1 / sqrt (5 :: real)]"
proof -
  have a: "DataLoader 2 (SubCIFAR example_world 0) = Inr [[(1, 0), (2, 0)], [(3, 0)]]"
    by (simp add: DataLoader_def example_SubCIFAR chunks_2_3)
  have b: "concat (map (class_features example_world (step example_session))
               [[(1, 0), (2, 0)], [(3, 0)]]) = [[1, 1], [2, 1], [3, 1]]"
    by (simp add: example_class_features)
  have c: "unit_vector (columnwise_mean [[1, 1], [2, 1], [3, 1]]) = [2 / sqrt 5, 1 / sqrt 5]"
    by (simp add: unit_vector_def columnwise_mean_def l2_norm_def upt_rec numeral_2_eq_2)
  have "(3 / sqrt 18)\<^sup>2 \<noteq> (2 / sqrt (5 :: real))\<^sup>2"
    by (simp add: power_divide)
  then have d: "3 / sqrt 18 \<noteq> 2 / sqrt (5 :: real)" by metis
  have e: "map_sum id snd (get_features_representation example_world (step example_session)
         [[(1, 0), (2, 0)], [(3, 0)]]) = Inr [3 / sqrt 18, 3 / sqrt 18]"
    unfolding example_class_mean by simp
  have f: "[3 / sqrt 18, 3 / sqrt 18] \<noteq> [2 / sqrt 5, 1 / sqrt (5 :: real)]"
    using d by simp
  from a b c e f show ?thesis by blast
qed

end
